theory Spec2Isabelle
  imports Main
begin

section \<open>Data model\<close>

text \<open>
  The repository is one function, \<^verbatim>\<open>convert_video_to_h265\<close> in
  \<^verbatim>\<open>video_converter.cpp\<close>. It drives the container, codec and scaling libraries
  through a fixed sequence of calls. The libraries are external: the model takes the
  answer of every library call from an environment and records what the function does
  with it (the calls it makes, the fields it assigns, the handles it acquires and
  releases) in a trace.
\<close>

record AVRational =
  num :: int
  den :: int

text \<open>
  Modelled from the spec: the inverse of a rational (\<^verbatim>\<open>av_inv_q\<close> of the codec library
  is not part of the repository): numerator and denominator change places.
\<close>

definition av_inv_q :: "AVRational \<Rightarrow> AVRational" where
  "av_inv_q q = \<lparr>num = den q, den = num q\<rparr>"

text \<open>
  Modelled from the spec: the rescale-timestamp capability of the codec provider, an
  exact rational rescaling of a timestamp \<open>a\<close> from time base \<open>bq\<close> to time base \<open>cq\<close>, that
  is \<open>a * bq / cq = a * (num bq * den cq) / (num cq * den bq)\<close>, computed on integers and
  rounded to the nearest integer (a tie goes away from zero).
\<close>

definition round_div :: "int \<Rightarrow> int \<Rightarrow> int" where
  "round_div x c = (if 0 \<le> x then (x + c div 2) div c else - ((- x + c div 2) div c))"

definition av_rescale_q :: "int \<Rightarrow> AVRational \<Rightarrow> AVRational \<Rightarrow> int" where
  "av_rescale_q a bq cq = round_div (a * (num bq * den cq)) (num cq * den bq)"

datatype pix_fmt = AV_PIX_FMT_YUV420P | Other_pix_fmt int

text \<open>
  A pointer variable of the function is null, points to a live object, or still holds
  the address of an object that has been released.
\<close>

datatype ptr = Null | Live | Dangling

text \<open>
  One constructor for each pointer the function owns. \<open>Out_pb\<close> is
  \<^verbatim>\<open>out_fmt_ctx->pb\<close>, \<open>Image_buf\<close> is \<^verbatim>\<open>frame_converted->data[0]\<close>.
\<close>

datatype resource =
    In_fmt_ctx | Dec_ctx | Out_fmt_ctx | Out_pb | Enc_ctx
  | Frame_decoded | Frame_converted | Packet_in | Packet_out
  | Sws_ctx | Image_buf

datatype field =
    Enc_height | Enc_width | Enc_sample_aspect_ratio | Enc_pix_fmt | Enc_time_base
  | Out_time_base
  | Fc_width | Fc_height | Fc_format | Fc_pts
  | Pkt_stream_index

datatype event =
    Acquire resource
  | Release resource
  | Unref resource
  | Assign field
  | Open_encoder int
  | Params_from_context int
  | Write_header int
  | Read_frame int
  | Send_packet int
  | Receive_frame int
  | Sws_scale
  | Send_frame int
  | Receive_packet int
  | Rescale_ts int int
  | Write_frame int int
  | Write_trailer

subsection \<open>The environment: what the libraries answer\<close>

text \<open>
  The answers of the receive calls are scripted per call site. \<open>enc_answer\<close> is one answer
  of \<^verbatim>\<open>avcodec_receive_packet\<close> (its return value and the pts of the packet it
  delivers) with the return value of the \<^verbatim>\<open>av_interleaved_write_frame\<close> that follows
  it; \<open>dec_answer\<close> is one answer of \<^verbatim>\<open>avcodec_receive_frame\<close> (return value, pts of
  the frame), the return value of the following \<^verbatim>\<open>avcodec_send_frame\<close> and the answers
  of the encoder for that frame; \<open>packet\<close> is one packet delivered by
  \<^verbatim>\<open>av_read_frame\<close> with the return value of \<^verbatim>\<open>avcodec_send_packet\<close> and the
  answers of the decoder for it. A codec whose script is used up answers
  \<^verbatim>\<open>AVERROR(EAGAIN)\<close>; after the last packet \<^verbatim>\<open>av_read_frame\<close> returns a negative
  value.
\<close>

datatype enc_answer =
  Enc_answer (receive_packet_ret: int) (packet_pts: int) (write_ret: int)

datatype dec_answer =
  Dec_answer (receive_frame_ret: int) (frame_pts: int) (send_frame_ret: int)
    (enc_answers: "enc_answer list")

datatype packet =
  Packet (stream_index: int) (send_packet_ret: int) (dec_answers: "dec_answer list")

record source_env =
  open_input_ret :: int
  find_stream_info_ret :: int
  best_stream_ret :: int
  decoder_found :: bool
  dec_ctx_allocated :: bool
  params_to_context_ret :: int
  dec_open_ret :: int
  dec_width :: int
  dec_height :: int
  dec_framerate :: AVRational
  r_frame_rate :: AVRational

record sink_env =
  alloc_output_ret :: int
  encoder_found :: bool
  out_stream_allocated :: bool
  enc_ctx_allocated :: bool
  enc_open_ret :: int
  params_from_context_ret :: int
  nofile :: bool
  avio_open_ret :: int
  write_header_ret :: int
  header_time_base :: AVRational

record converter_env =
  frame_decoded_allocated :: bool
  frame_converted_allocated :: bool
  packet_in_allocated :: bool
  packet_out_allocated :: bool
  sws_allocated :: bool
  image_alloc_ret :: int

record env =
  source :: source_env
  sink :: sink_env
  converter :: converter_env
  packets :: "packet list"
  AVERROR_EAGAIN :: int
  AVERROR_EOF :: int

subsection \<open>The state of the function\<close>

record state =
  handles :: "resource \<Rightarrow> ptr"
  enc_width :: int
  enc_height :: int
  enc_pix_fmt :: pix_fmt
  enc_time_base :: AVRational
  out_time_base :: AVRational
  fc_width :: int
  fc_height :: int
  fc_format :: pix_fmt
  fc_pts :: int
  ret :: int
  trace :: "event list"
  faulted :: bool


definition init_state :: state where
  "init_state =
     \<lparr>handles = (\<lambda>r. Null), enc_width = 0, enc_height = 0,
      enc_pix_fmt = Other_pix_fmt (- 1), enc_time_base = \<lparr>num = 0, den = 1\<rparr>,
      out_time_base = \<lparr>num = 0, den = 1\<rparr>,
      fc_width = 0, fc_height = 0, fc_format = Other_pix_fmt (- 1), fc_pts = 0,
      ret = 0, trace = [], faulted = False\<rparr>"

definition emit :: "event \<Rightarrow> state \<Rightarrow> state" where
  "emit ev s = s\<lparr>trace := trace s @ [ev]\<rparr>"

definition set_handle :: "resource \<Rightarrow> ptr \<Rightarrow> state \<Rightarrow> state" where
  "set_handle r p s = s\<lparr>handles := (handles s)(r := p)\<rparr>"

text \<open>A successful allocation or open: the handle becomes live.\<close>

definition acquire :: "resource \<Rightarrow> state \<Rightarrow> state" where
  "acquire r s = emit (Acquire r) (set_handle r Live s)"

text \<open>
  A null dereference, a use of a released object or a second release of it: the
  behaviour of the function is undefined from there on, and the model stops.
\<close>

definition fault :: "state \<Rightarrow> state" where
  "fault s = s\<lparr>faulted := True\<rparr>"

text \<open>
  The release functions of the libraries come in two shapes. Those that take the
  address of the handle (\<^verbatim>\<open>av_freep\<close>, \<^verbatim>\<open>av_frame_free\<close>, \<^verbatim>\<open>av_packet_free\<close>,
  \<^verbatim>\<open>avio_closep\<close>, \<^verbatim>\<open>avcodec_free_context\<close>, \<^verbatim>\<open>avformat_close_input\<close>) do
  nothing on a null handle and otherwise release the object and reset the handle to
  null. Those that take the handle by value (\<^verbatim>\<open>sws_freeContext\<close>,
  \<^verbatim>\<open>avformat_free_context\<close>) do nothing on a null handle and otherwise release the
  object; the caller's variable keeps the old address.
\<close>

definition free_by_address :: "resource \<Rightarrow> state \<Rightarrow> state" where
  "free_by_address r s =
     (case handles s r of
        Null \<Rightarrow> s
      | Live \<Rightarrow> emit (Release r) (set_handle r Null s)
      | Dangling \<Rightarrow> fault s)"

definition free_by_value :: "resource \<Rightarrow> state \<Rightarrow> state" where
  "free_by_value r s =
     (case handles s r of
        Null \<Rightarrow> s
      | Live \<Rightarrow> emit (Release r) (set_handle r Dangling s)
      | Dangling \<Rightarrow> fault s)"

abbreviation sws_freeContext :: "state \<Rightarrow> state" where
  "sws_freeContext \<equiv> free_by_value Sws_ctx"

abbreviation avformat_free_context :: "state \<Rightarrow> state" where
  "avformat_free_context \<equiv> free_by_value Out_fmt_ctx"

abbreviation avformat_close_input :: "state \<Rightarrow> state" where
  "avformat_close_input \<equiv> free_by_address In_fmt_ctx"

abbreviation avcodec_free_context :: "resource \<Rightarrow> state \<Rightarrow> state" where
  "avcodec_free_context r \<equiv> free_by_address r"

abbreviation av_frame_free :: "resource \<Rightarrow> state \<Rightarrow> state" where
  "av_frame_free r \<equiv> free_by_address r"

abbreviation av_packet_free :: "resource \<Rightarrow> state \<Rightarrow> state" where
  "av_packet_free r \<equiv> free_by_address r"

abbreviation avio_closep :: "state \<Rightarrow> state" where
  "avio_closep \<equiv> free_by_address Out_pb"

text \<open>
  \<^verbatim>\<open>av_freep(&frame_converted->data[0])\<close>: the argument is formed through
  \<^verbatim>\<open>frame_converted\<close>, which has to point to a live frame.
\<close>

definition av_freep_data0 :: "state \<Rightarrow> state" where
  "av_freep_data0 s =
     (if handles s Frame_converted = Live then free_by_address Image_buf s else fault s)"

text \<open>
  \<^verbatim>\<open>if (out_fmt_ctx && !(out_fmt_ctx->oformat->flags & AVFMT_NOFILE)) avio_closep(&out_fmt_ctx->pb);\<close>
  The flag is read through \<^verbatim>\<open>out_fmt_ctx\<close> whenever that pointer is not null.
\<close>

definition close_output_if_file :: "env \<Rightarrow> state \<Rightarrow> state" where
  "close_output_if_file e s =
     (case handles s Out_fmt_ctx of
        Null \<Rightarrow> s
      | Live \<Rightarrow> if \<not> nofile (sink e) then avio_closep s else s
      | Dangling \<Rightarrow> fault s)"

text \<open>Statements in sequence: nothing runs after a fault.\<close>

definition step :: "(state \<Rightarrow> state) \<Rightarrow> state \<Rightarrow> state" where
  "step f s = (if faulted s then s else f s)"

subsection \<open>Teardown: the statements after the label \<^verbatim>\<open>cleanup\<close>\<close>

definition cleanup :: "env \<Rightarrow> state \<Rightarrow> state" where
  "cleanup e s =
     fold step
       [\<lambda>s. if handles s Sws_ctx \<noteq> Null then sws_freeContext s else s,
        av_freep_data0,
        av_frame_free Frame_converted,
        av_frame_free Frame_decoded,
        av_packet_free Packet_in,
        av_packet_free Packet_out,
        close_output_if_file e,
        avcodec_free_context Enc_ctx,
        avcodec_free_context Dec_ctx,
        avformat_close_input,
        avformat_free_context] s"

subsection \<open>The transcode loop\<close>

text \<open>
  How a loop is left: \<open>Falls\<close> when control continues after the loop (its condition
  failed or a \<^verbatim>\<open>break\<close> left it), \<open>Goto_cleanup\<close> on \<^verbatim>\<open>goto cleanup\<close>.
\<close>

datatype flow = Falls | Goto_cleanup

text \<open>
  The inner loop: \<^verbatim>\<open>while (ret >= 0) { ret = avcodec_receive_packet(enc_ctx, packet_out); ... }\<close>
\<close>

fun encode_drain :: "env \<Rightarrow> enc_answer list \<Rightarrow> state \<Rightarrow> flow \<times> state" where
  "encode_drain e [] s =
     (if ret s < 0 then (Falls, s)
      else if handles s Packet_out \<noteq> Live then (Goto_cleanup, fault s)
      else (Falls, emit (Receive_packet (AVERROR_EAGAIN e)) (s\<lparr>ret := AVERROR_EAGAIN e\<rparr>)))"
| "encode_drain e (a # as) s =
     (if ret s < 0 then (Falls, s)
      else if handles s Packet_out \<noteq> Live then (Goto_cleanup, fault s)
      else
        let r = receive_packet_ret a;
            s1 = emit (Receive_packet r) (s\<lparr>ret := r\<rparr>)
        in if r = AVERROR_EAGAIN e \<or> r = AVERROR_EOF e then (Falls, s1)
           else if r < 0 then (Goto_cleanup, s1)
           else
             let pts = av_rescale_q (packet_pts a) (enc_time_base s1) (out_time_base s1);
                 s2 = emit (Rescale_ts (packet_pts a) pts) s1;
                 s3 = emit (Assign Pkt_stream_index) s2;
                 s4 = emit (Write_frame pts (write_ret a)) s3
             in if write_ret a < 0 then (Goto_cleanup, s4)
                else encode_drain e as (emit (Unref Packet_out) s4))"

text \<open>
  The middle loop: \<^verbatim>\<open>while (ret >= 0) { ret = avcodec_receive_frame(dec_ctx, frame_decoded); ... }\<close>
  It shares the variable \<^verbatim>\<open>ret\<close> with the inner loop.
\<close>

fun decode_drain :: "env \<Rightarrow> dec_answer list \<Rightarrow> state \<Rightarrow> flow \<times> state" where
  "decode_drain e [] s =
     (if ret s < 0 then (Falls, s)
      else if handles s Frame_decoded \<noteq> Live then (Goto_cleanup, fault s)
      else (Falls, emit (Receive_frame (AVERROR_EAGAIN e)) (s\<lparr>ret := AVERROR_EAGAIN e\<rparr>)))"
| "decode_drain e (a # as) s =
     (if ret s < 0 then (Falls, s)
      else if handles s Frame_decoded \<noteq> Live then (Goto_cleanup, fault s)
      else
        let r = receive_frame_ret a;
            s1 = emit (Receive_frame r) (s\<lparr>ret := r\<rparr>)
        in if r = AVERROR_EAGAIN e \<or> r = AVERROR_EOF e then (Falls, s1)
           else if r < 0 then (Goto_cleanup, s1)
           else
             let s2 = emit Sws_scale s1;
                 s3 = emit (Assign Fc_pts) (s2\<lparr>fc_pts := frame_pts a\<rparr>);
                 s4 = emit (Send_frame (send_frame_ret a)) (s3\<lparr>ret := send_frame_ret a\<rparr>)
             in if send_frame_ret a < 0 then (Goto_cleanup, s4)
                else
                  (case encode_drain e (enc_answers a) s4 of
                     (Goto_cleanup, s5) \<Rightarrow> (Goto_cleanup, s5)
                   | (Falls, s5) \<Rightarrow> decode_drain e as (emit (Unref Frame_decoded) s5)))"

text \<open>
  The outer loop: \<^verbatim>\<open>while (av_read_frame(in_fmt_ctx, packet_in) >= 0) { ... }\<close>
  A failing \<^verbatim>\<open>avcodec_send_packet\<close> leaves it by \<^verbatim>\<open>break\<close>.
\<close>

fun transcode_loop :: "env \<Rightarrow> packet list \<Rightarrow> state \<Rightarrow> flow \<times> state" where
  "transcode_loop e [] s =
     (if handles s Packet_in \<noteq> Live then (Goto_cleanup, fault s)
      else (Falls, emit (Read_frame (- 1)) s))"
| "transcode_loop e (p # ps) s =
     (if handles s Packet_in \<noteq> Live then (Goto_cleanup, fault s)
      else
        let s1 = emit (Read_frame 0) s
        in if stream_index p = best_stream_ret (source e) then
             let s2 = emit (Send_packet (send_packet_ret p)) (s1\<lparr>ret := send_packet_ret p\<rparr>)
             in if send_packet_ret p < 0 then (Falls, s2)
                else
                  (case decode_drain e (dec_answers p) s2 of
                     (Goto_cleanup, s3) \<Rightarrow> (Goto_cleanup, s3)
                   | (Falls, s3) \<Rightarrow> transcode_loop e ps (emit (Unref Packet_in) s3))
           else transcode_loop e ps (emit (Unref Packet_in) s1))"


subsection \<open>The function, from the transcode loop back to the first call\<close>

text \<open>
  The body of \<^verbatim>\<open>convert_video_to_h265\<close> is one sequence of steps, each of which may
  return early. The model cuts it at the comments of the source into four definitions,
  the later part being the last call of the earlier one. The two \<^verbatim>\<open>av_opt_set\<close>
  calls (preset and thread count) and the diagnostics written to \<^verbatim>\<open>stderr\<close> change
  nothing the model observes and are left out.
\<close>

text \<open>Lines 181 to 254: the fields of the converted frame, the loop, the trailer, Teardown.\<close>

definition main_conversion :: "env \<Rightarrow> state \<Rightarrow> state" where
  "main_conversion e s =
     (let s1 = emit (Assign Fc_width) (s\<lparr>fc_width := enc_width s\<rparr>);
          s2 = emit (Assign Fc_height) (s1\<lparr>fc_height := enc_height s1\<rparr>);
          s3 = emit (Assign Fc_format) (s2\<lparr>fc_format := enc_pix_fmt s2\<rparr>);
          s4 = emit (Assign Fc_pts) (s3\<lparr>fc_pts := 0\<rparr>)
      in case transcode_loop e (packets e) s4 of
           (Goto_cleanup, s5) \<Rightarrow> cleanup e s5
         | (Falls, s5) \<Rightarrow> cleanup e (emit Write_trailer s5))"

text \<open>
  Lines 160 to 163. The four allocations are not checked: a failed one leaves its handle
  null.
\<close>

definition allocate :: "resource \<Rightarrow> bool \<Rightarrow> state \<Rightarrow> state" where
  "allocate r ok s = (if ok then acquire r s else s)"

definition allocate_frames_and_packets :: "env \<Rightarrow> state \<Rightarrow> state" where
  "allocate_frames_and_packets e s =
     (let s1 = allocate Frame_decoded (frame_decoded_allocated (converter e)) s;
          s2 = allocate Frame_converted (frame_converted_allocated (converter e)) s1;
          s3 = allocate Packet_in (packet_in_allocated (converter e)) s2
      in allocate Packet_out (packet_out_allocated (converter e)) s3)"

text \<open>
  Lines 159 to 180. \<^verbatim>\<open>av_image_alloc(frame_converted->data, ...)\<close> goes through
  \<^verbatim>\<open>frame_converted\<close>.
\<close>

definition frame_converter :: "env \<Rightarrow> state \<Rightarrow> state" where
  "frame_converter e s =
     (let s4 = allocate_frames_and_packets e s
      in if \<not> sws_allocated (converter e) then cleanup e s4
         else
           let s5 = acquire Sws_ctx s4
           in if handles s5 Frame_converted \<noteq> Live then fault s5
              else
                let s6 = s5\<lparr>ret := image_alloc_ret (converter e)\<rparr>
                in if image_alloc_ret (converter e) < 0 then cleanup e s6
                   else main_conversion e (acquire Image_buf s6))"

text \<open>Lines 102 to 112: the parameters of the encoder.\<close>

definition set_encoder_parameters :: "env \<Rightarrow> state \<Rightarrow> state" where
  "set_encoder_parameters e s =
     (let s1 = emit (Assign Enc_height) (s\<lparr>enc_height := dec_height (source e)\<rparr>);
          s2 = emit (Assign Enc_width) (s1\<lparr>enc_width := dec_width (source e)\<rparr>);
          s3 = emit (Assign Enc_sample_aspect_ratio) s2;
          s4 = emit (Assign Enc_pix_fmt) (s3\<lparr>enc_pix_fmt := AV_PIX_FMT_YUV420P\<rparr>)
      in emit (Assign Enc_time_base)
           (s4\<lparr>enc_time_base :=
                 av_inv_q (if num (dec_framerate (source e)) \<noteq> 0
                           then dec_framerate (source e)
                           else r_frame_rate (source e))\<rparr>))"

text \<open>
  Lines 63 to 157. \<^verbatim>\<open>avformat_write_header\<close> may replace the time base of the output
  stream by the one the muxer uses; \<open>header_time_base\<close> is the value it leaves there.
\<close>

definition sink_builder :: "env \<Rightarrow> state \<Rightarrow> state" where
  "sink_builder e s =
     (if alloc_output_ret (sink e) < 0 then
        fold step [avcodec_free_context Dec_ctx, avformat_close_input] s
      else
        let s1 = acquire Out_fmt_ctx s
        in if \<not> encoder_found (sink e) then
             fold step [avformat_free_context, avcodec_free_context Dec_ctx,
               avformat_close_input] s1
           else if \<not> out_stream_allocated (sink e) then
             fold step [avformat_free_context, avcodec_free_context Dec_ctx,
               avformat_close_input] s1
           else if \<not> enc_ctx_allocated (sink e) then
             fold step [avformat_free_context, avcodec_free_context Dec_ctx,
               avformat_close_input] s1
           else
             let s2 = set_encoder_parameters e (acquire Enc_ctx s1);
                 s3 = emit (Open_encoder (enc_open_ret (sink e))) s2
             in if enc_open_ret (sink e) < 0 then
                  fold step [avcodec_free_context Enc_ctx, avformat_free_context,
                    avcodec_free_context Dec_ctx, avformat_close_input] s3
                else
                  let s4 = emit (Params_from_context (params_from_context_ret (sink e))) s3
                  in if params_from_context_ret (sink e) < 0 then
                       fold step [avcodec_free_context Enc_ctx, avformat_free_context,
                         avcodec_free_context Dec_ctx, avformat_close_input] s4
                     else
                       let s5 = emit (Assign Out_time_base)
                                  (s4\<lparr>out_time_base := enc_time_base s4\<rparr>)
                       in if \<not> nofile (sink e) \<and> avio_open_ret (sink e) < 0 then
                            fold step [avcodec_free_context Enc_ctx, avformat_free_context,
                              avcodec_free_context Dec_ctx, avformat_close_input] s5
                          else
                            let s6 = (if \<not> nofile (sink e) then acquire Out_pb s5 else s5);
                                s7 = emit (Write_header (write_header_ret (sink e))) s6
                            in if write_header_ret (sink e) < 0 then
                                 fold step
                                   [\<lambda>s. if \<not> nofile (sink e) then avio_closep s else s,
                                    avcodec_free_context Enc_ctx, avformat_free_context,
                                    avcodec_free_context Dec_ctx, avformat_close_input] s7
                               else
                                 frame_converter e
                                   (s7\<lparr>out_time_base := header_time_base (sink e)\<rparr>))"

text \<open>Lines 13 to 61, and with them the whole function.\<close>

definition convert_video_to_h265 :: "env \<Rightarrow> state" where
  "convert_video_to_h265 e =
     (if open_input_ret (source e) < 0 then init_state
      else
        let s1 = acquire In_fmt_ctx init_state
        in if find_stream_info_ret (source e) < 0 then avformat_close_input s1
           else if best_stream_ret (source e) < 0 then avformat_close_input s1
           else if \<not> decoder_found (source e) then avformat_close_input s1
           else if \<not> dec_ctx_allocated (source e) then avformat_close_input s1
           else
             let s2 = acquire Dec_ctx s1
             in if params_to_context_ret (source e) < 0 then
                  fold step [avcodec_free_context Dec_ctx, avformat_close_input] s2
                else if dec_open_ret (source e) < 0 then
                  fold step [avcodec_free_context Dec_ctx, avformat_close_input] s2
                else sink_builder e s2)"


subsection \<open>Reading a trace\<close>

text \<open>
  The pts of the packets the encoder delivered, as they enter the rescaling, and the pts
  handed to the muxer, in the order of the trace.
\<close>

fun received_pts :: "event list \<Rightarrow> int list" where
  "received_pts [] = []"
| "received_pts (Rescale_ts a b # tr) = a # received_pts tr"
| "received_pts (ev # tr) = received_pts tr"

fun written_pts :: "event list \<Rightarrow> int list" where
  "written_pts [] = []"
| "written_pts (Write_frame a r # tr) = a # written_pts tr"
| "written_pts (ev # tr) = written_pts tr"

text \<open>The frames submitted to the encoder and the packets the muxer accepted.\<close>

fun frames_sent :: "event list \<Rightarrow> nat" where
  "frames_sent [] = 0"
| "frames_sent (Send_frame r # tr) = (if 0 \<le> r then 1 else 0) + frames_sent tr"
| "frames_sent (ev # tr) = frames_sent tr"

fun packets_written :: "event list \<Rightarrow> nat" where
  "packets_written [] = 0"
| "packets_written (Write_frame a r # tr) = (if 0 \<le> r then 1 else 0) + packets_written tr"
| "packets_written (ev # tr) = packets_written tr"

subsection \<open>Concrete environments\<close>

text \<open>
  A 1280 by 720 source at 30 frames per second on which every set-up call succeeds; the
  error codes are those of Linux (\<^verbatim>\<open>EAGAIN\<close> is 11, \<^verbatim>\<open>AVERROR_EOF\<close> is the negated tag
  \<^verbatim>\<open>'E','O','F',' '\<close>). The stream selected is stream 0.
\<close>

definition good_source :: source_env where
  "good_source =
     \<lparr>open_input_ret = 0, find_stream_info_ret = 0, best_stream_ret = 0,
      decoder_found = True, dec_ctx_allocated = True, params_to_context_ret = 0,
      dec_open_ret = 0, dec_width = 1280, dec_height = 720,
      dec_framerate = \<lparr>num = 30, den = 1\<rparr>, r_frame_rate = \<lparr>num = 30, den = 1\<rparr>\<rparr>"

definition good_sink :: sink_env where
  "good_sink =
     \<lparr>alloc_output_ret = 0, encoder_found = True, out_stream_allocated = True,
      enc_ctx_allocated = True, enc_open_ret = 0, params_from_context_ret = 0,
      nofile = False, avio_open_ret = 0, write_header_ret = 0,
      header_time_base = \<lparr>num = 1, den = 15360\<rparr>\<rparr>"

definition good_converter :: converter_env where
  "good_converter =
     \<lparr>frame_decoded_allocated = True, frame_converted_allocated = True,
      packet_in_allocated = True, packet_out_allocated = True,
      sws_allocated = True, image_alloc_ret = 0\<rparr>"

definition scenario :: "packet list \<Rightarrow> env" where
  "scenario ps =
     \<lparr>source = good_source, sink = good_sink, converter = good_converter,
      packets = ps, AVERROR_EAGAIN = - 11, AVERROR_EOF = - 541478725\<rparr>"

text \<open>
  The same source, with \<^verbatim>\<open>avcodec_parameters_from_context\<close> failing after the encoder
  has been opened.
\<close>

definition copy_failure :: env where
  "copy_failure = (scenario [])\<lparr>sink := good_sink\<lparr>params_from_context_ret := - 1\<rparr>\<rparr>"

text \<open>
  One video packet that decodes to one frame, for which the encoder delivers two packets,
  with pts 0 and 1.
\<close>

definition two_packets :: "packet list" where
  "two_packets = [Packet 0 0 [Dec_answer 0 0 0 [Enc_answer 0 0 0, Enc_answer 0 1 0]]]"

text \<open>
  A first video packet that the decoder refuses (\<^verbatim>\<open>AVERROR_INVALIDDATA\<close>), and one that
  it accepts but cannot decode.
\<close>

definition send_failure :: env where
  "send_failure = scenario [Packet 0 (- 1094995529) []]"

definition receive_failure :: env where
  "receive_failure = scenario [Packet 0 0 [Dec_answer (- 1094995529) 0 0 []]]"

text \<open>
  Three video packets, each decoded to one frame, with an encoder that holds its frames
  back (it answers \<^verbatim>\<open>AVERROR(EAGAIN)\<close> to every receive call, as an encoder with
  lookahead does until it is flushed); and one video packet for which the decoder has two
  frames, the encoder delivering a packet for each frame it is sent.
\<close>

definition buffering_encoder :: env where
  "buffering_encoder =
     scenario [Packet 0 0 [Dec_answer 0 0 0 []], Packet 0 0 [Dec_answer 0 1 0 []],
       Packet 0 0 [Dec_answer 0 2 0 []]]"

definition two_frames_in_packet :: env where
  "two_frames_in_packet =
     scenario [Packet 0 0 [Dec_answer 0 0 0 [Enc_answer 0 0 0],
       Dec_answer 0 1 0 [Enc_answer 0 1 0]]]"

text \<open>
  Failed allocations after the header write: in \<open>null_handles\<close> only
  \<^verbatim>\<open>frame_converted\<close> is allocated and \<^verbatim>\<open>sws_getContext\<close> returns null; in
  \<open>null_converted_frame\<close> it is \<^verbatim>\<open>frame_converted\<close> that is null; in
  \<open>image_alloc_failure\<close> everything is allocated and \<^verbatim>\<open>av_image_alloc\<close> returns
  \<^verbatim>\<open>AVERROR(ENOMEM)\<close>.
\<close>

definition null_handles :: env where
  "null_handles =
     (scenario [])\<lparr>converter :=
        \<lparr>frame_decoded_allocated = False, frame_converted_allocated = True,
         packet_in_allocated = False, packet_out_allocated = False,
         sws_allocated = False, image_alloc_ret = 0\<rparr>\<rparr>"

definition null_converted_frame :: env where
  "null_converted_frame =
     (scenario [])\<lparr>converter :=
        \<lparr>frame_decoded_allocated = True, frame_converted_allocated = False,
         packet_in_allocated = True, packet_out_allocated = True,
         sws_allocated = False, image_alloc_ret = 0\<rparr>\<rparr>"

definition image_alloc_failure :: env where
  "image_alloc_failure =
     (scenario [])\<lparr>converter := (converter (scenario []))\<lparr>image_alloc_ret := - 12\<rparr>\<rparr>"

subsection \<open>Auxiliary predicates\<close>

text \<open>
  The events the transcode loop can add to the trace, and those anything after the
  header write can add.
\<close>

fun loop_event :: "event \<Rightarrow> bool" where
  "loop_event (Unref r) = True"
| "loop_event (Assign f) = (f = Fc_pts \<or> f = Pkt_stream_index)"
| "loop_event (Read_frame r) = True"
| "loop_event (Send_packet r) = True"
| "loop_event (Receive_frame r) = True"
| "loop_event Sws_scale = True"
| "loop_event (Send_frame r) = True"
| "loop_event (Receive_packet r) = True"
| "loop_event (Rescale_ts a b) = True"
| "loop_event (Write_frame a r) = True"
| "loop_event ev = False"

fun late_event :: "event \<Rightarrow> bool" where
  "late_event (Acquire r) = (r \<in> {Frame_decoded, Frame_converted, Packet_in, Packet_out, Sws_ctx, Image_buf})"
| "late_event (Release r) = True"
| "late_event (Assign f) = (f \<in> {Fc_width, Fc_height, Fc_format, Fc_pts, Pkt_stream_index})"
| "late_event Write_trailer = True"
| "late_event (Open_encoder r) = False"
| "late_event (Params_from_context r) = False"
| "late_event (Write_header r) = False"
| "late_event ev = loop_event ev"

text \<open>
  \<open>extends_by K s s'\<close>: from \<open>s\<close> to \<open>s'\<close> the encoder's fields and the output time
  base keep their values and the trace grows by events of kind \<open>K\<close>. \<open>loop_frame\<close> adds
  what the loop leaves alone: the handles and the geometry of the converted frame.
\<close>

definition extends_by :: "(event \<Rightarrow> bool) \<Rightarrow> state \<Rightarrow> state \<Rightarrow> bool" where
  "extends_by K s s' \<longleftrightarrow>
     enc_width s' = enc_width s \<and> enc_height s' = enc_height s
     \<and> enc_pix_fmt s' = enc_pix_fmt s \<and> enc_time_base s' = enc_time_base s
     \<and> out_time_base s' = out_time_base s
     \<and> (\<exists>t. trace s' = trace s @ t \<and> list_all K t)"

definition loop_frame :: "state \<Rightarrow> state \<Rightarrow> bool" where
  "loop_frame s s' \<longleftrightarrow>
     extends_by loop_event s s' \<and> handles s' = handles s \<and> fc_width s' = fc_width s
     \<and> fc_height s' = fc_height s \<and> fc_format s' = fc_format s
     \<and> (faulted s \<longrightarrow> faulted s')"

text \<open>What a release function adds to the trace for a handle in a given state.\<close>

fun release_events :: "resource \<Rightarrow> ptr \<Rightarrow> event list" where
  "release_events r Live = [Release r]"
| "release_events r Null = []"
| "release_events r Dangling = []"

text \<open>
  Acquisitions and releases, and the events that can follow the assignments of line 181
  to 184: those of the loop, the trailer write and the releases.
\<close>

fun bracket_event :: "event \<Rightarrow> bool" where
  "bracket_event (Acquire r) = True"
| "bracket_event (Release r) = True"
| "bracket_event ev = False"

fun tail_event :: "event \<Rightarrow> bool" where
  "tail_event (Release r) = True"
| "tail_event Write_trailer = True"
| "tail_event (Acquire r) = False"
| "tail_event ev = loop_event ev"

text \<open>
  The pts handed to the muxer are the pts received from the encoder, each rescaled from
  the encoder's time base to the time base of the output stream.
\<close>

definition pts_ok :: "state \<Rightarrow> bool" where
  "pts_ok s \<longleftrightarrow>
     written_pts (trace s) =
       map (\<lambda>a. av_rescale_q a (enc_time_base s) (out_time_base s)) (received_pts (trace s))"

text \<open>
  Bookkeeping of the resources. \<open>account r s\<close>: up to \<open>s\<close> the resource \<open>r\<close> has been
  acquired at most once, and released as often as acquired unless its handle is live,
  when one release is due. \<open>dead r s\<close>: the handle of \<open>r\<close> is not live, or the run has
  faulted.
\<close>

definition account :: "resource \<Rightarrow> state \<Rightarrow> bool" where
  "account r s \<longleftrightarrow>
     count_list (trace s) (Acquire r) \<le> 1
     \<and> count_list (trace s) (Release r) + (if handles s r = Live then 1 else 0) =
         count_list (trace s) (Acquire r)"

definition ledger :: "state \<Rightarrow> bool" where
  "ledger s \<longleftrightarrow> (\<forall>r. account r s)"

definition dead :: "resource \<Rightarrow> state \<Rightarrow> bool" where
  "dead r s \<longleftrightarrow> faulted s \<or> handles s r \<noteq> Live"

text \<open>
  Teardown closes the I/O handle when the output context is there and the format has a
  file; \<open>closable\<close> says that a live I/O handle is in that situation.
\<close>

definition closable :: "env \<Rightarrow> state \<Rightarrow> bool" where
  "closable e s \<longleftrightarrow>
     faulted s \<or> handles s Out_pb \<noteq> Live
     \<or> (handles s Out_fmt_ctx = Live \<and> \<not> nofile (sink e))"


section \<open>Auxiliary lemmas\<close>

subsection \<open>Growth of the trace\<close>

lemma extends_by_refl: "extends_by K s s"
  by (simp add: extends_by_def)

lemma extends_by_trans: "extends_by K s s' \<Longrightarrow> extends_by K s' s'' \<Longrightarrow> extends_by K s s''"
  by (auto simp: extends_by_def)

lemma extends_by_mono: "extends_by K s s' \<Longrightarrow> (\<And>ev. K ev \<Longrightarrow> K' ev) \<Longrightarrow> extends_by K' s s'"
  by (auto simp: extends_by_def list_all_iff)

lemma extends_by_emit: "K ev \<Longrightarrow> extends_by K s s' \<Longrightarrow> extends_by K s (emit ev s')"
  by (auto simp: extends_by_def emit_def)

lemma extends_by_fault: "extends_by K s s' \<Longrightarrow> extends_by K s (fault s')"
  by (auto simp: extends_by_def fault_def)

lemma extends_by_ret: "extends_by K s s' \<Longrightarrow> extends_by K s (s'\<lparr>ret := r\<rparr>)"
  by (auto simp: extends_by_def)

lemma extends_by_fc:
  "extends_by K s s' \<Longrightarrow> extends_by K s (s'\<lparr>fc_pts := a\<rparr>)"
  "extends_by K s s' \<Longrightarrow> extends_by K s (s'\<lparr>fc_width := b\<rparr>)"
  "extends_by K s s' \<Longrightarrow> extends_by K s (s'\<lparr>fc_height := b\<rparr>)"
  "extends_by K s s' \<Longrightarrow> extends_by K s (s'\<lparr>fc_format := c\<rparr>)"
  by (auto simp: extends_by_def)

lemma extends_by_set_handle: "extends_by K s s' \<Longrightarrow> extends_by K s (set_handle r p s')"
  by (auto simp: extends_by_def set_handle_def)

lemma extends_by_acquire: "K (Acquire r) \<Longrightarrow> extends_by K s s' \<Longrightarrow> extends_by K s (acquire r s')"
  by (simp add: acquire_def extends_by_emit extends_by_set_handle)

lemma extends_by_allocate: "K (Acquire r) \<Longrightarrow> extends_by K s s' \<Longrightarrow> extends_by K s (allocate r ok s')"
  by (simp add: allocate_def extends_by_acquire)

lemma extends_by_free_by_address:
  "K (Release r) \<Longrightarrow> extends_by K s s' \<Longrightarrow> extends_by K s (free_by_address r s')"
  by (cases "handles s' r")
    (simp_all add: free_by_address_def extends_by_emit extends_by_set_handle extends_by_fault)

lemma extends_by_free_by_value:
  "K (Release r) \<Longrightarrow> extends_by K s s' \<Longrightarrow> extends_by K s (free_by_value r s')"
  by (cases "handles s' r")
    (simp_all add: free_by_value_def extends_by_emit extends_by_set_handle extends_by_fault)

lemma extends_by_step:
  "(\<And>s'. extends_by K s s' \<Longrightarrow> extends_by K s (f s')) \<Longrightarrow> extends_by K s s' \<Longrightarrow> extends_by K s (step f s')"
  by (simp add: step_def)

lemma extends_by_cleanup:
  assumes "\<And>r. K (Release r)" and "extends_by K s s'"
  shows "extends_by K s (cleanup e s')"
  using assms
  by (simp add: cleanup_def extends_by_step extends_by_free_by_address extends_by_free_by_value
      av_freep_data0_def close_output_if_file_def extends_by_fault split: ptr.splits)

subsection \<open>What the loops leave unchanged\<close>

lemma loop_frame_refl: "loop_frame s s"
  by (simp add: loop_frame_def extends_by_refl)

lemma loop_frame_emit: "loop_event ev \<Longrightarrow> loop_frame s s' \<Longrightarrow> loop_frame s (emit ev s')"
  by (auto simp: loop_frame_def extends_by_emit) (simp_all add: emit_def)

lemma loop_frame_ret: "loop_frame s s' \<Longrightarrow> loop_frame s (s'\<lparr>ret := r\<rparr>)"
  by (auto simp: loop_frame_def extends_by_ret)

lemma loop_frame_pts: "loop_frame s s' \<Longrightarrow> loop_frame s (s'\<lparr>fc_pts := r\<rparr>)"
  by (auto simp: loop_frame_def extends_by_fc)

lemma loop_frame_fault: "loop_frame s s' \<Longrightarrow> loop_frame s (fault s')"
  by (auto simp: loop_frame_def extends_by_fault) (simp_all add: fault_def)

lemmas loop_frame_intros =
  loop_frame_emit loop_frame_ret loop_frame_pts loop_frame_fault loop_frame_refl

lemma encode_drain_frame: "loop_frame s0 s \<Longrightarrow> loop_frame s0 (snd (encode_drain e as s))"
proof (induction as arbitrary: s)
  case Nil
  then show ?case by (simp add: loop_frame_intros)
next
  case (Cons a as)
  show ?case
    by (simp add: Let_def Cons.prems Cons.IH loop_frame_intros)
qed

lemma decode_drain_frame: "loop_frame s0 s \<Longrightarrow> loop_frame s0 (snd (decode_drain e as s))"
proof (induction as arbitrary: s)
  case Nil
  then show ?case by (simp add: loop_frame_intros)
next
  case (Cons a as)
  define s4 where "s4 = emit (Send_frame (send_frame_ret a))
     (emit (Assign Fc_pts) (emit Sws_scale (emit (Receive_frame (receive_frame_ret a))
        (s\<lparr>ret := receive_frame_ret a\<rparr>))\<lparr>fc_pts := frame_pts a\<rparr>)\<lparr>ret := send_frame_ret a\<rparr>)"
  obtain fl s5 where ed: "encode_drain e (enc_answers a) s4 = (fl, s5)"
    by (cases "encode_drain e (enc_answers a) s4")
  have s4: "loop_frame s0 s4"
    by (simp add: s4_def Cons.prems loop_frame_intros)
  then have s5: "loop_frame s0 s5"
    using encode_drain_frame [of s0 s4 e "enc_answers a"] ed by simp
  then have "loop_frame s0 (snd (decode_drain e as (emit (Unref Frame_decoded) s5)))"
    by (simp add: Cons.IH loop_frame_intros)
  with s4 s5 show ?case
    using ed by (simp add: Let_def Cons.prems loop_frame_intros s4_def [symmetric] split: flow.splits)
qed

lemma transcode_loop_frame: "loop_frame s0 s \<Longrightarrow> loop_frame s0 (snd (transcode_loop e ps s))"
proof (induction ps arbitrary: s)
  case Nil
  then show ?case by (simp add: loop_frame_intros)
next
  case (Cons p ps)
  define s2 where "s2 = emit (Send_packet (send_packet_ret p)) (emit (Read_frame 0) s\<lparr>ret := send_packet_ret p\<rparr>)"
  obtain fl s3 where dd: "decode_drain e (dec_answers p) s2 = (fl, s3)"
    by (cases "decode_drain e (dec_answers p) s2")
  have s2: "loop_frame s0 s2"
    by (simp add: s2_def Cons.prems loop_frame_intros)
  then have s3: "loop_frame s0 s3"
    using decode_drain_frame [of s0 s2 e "dec_answers p"] dd by simp
  then have "loop_frame s0 (snd (transcode_loop e ps (emit (Unref Packet_in) s3)))"
    by (simp add: Cons.IH loop_frame_intros)
  with s2 s3 show ?case
    using dd by (simp add: Let_def Cons.prems Cons.IH loop_frame_intros s2_def [symmetric] split: flow.splits)
qed

subsection \<open>Everything after the header write\<close>

lemma loop_event_late: "loop_event ev \<Longrightarrow> late_event ev"
  by (cases ev) auto

lemma loop_frame_late: "loop_frame s s' \<Longrightarrow> extends_by late_event s s'"
  by (auto simp: loop_frame_def intro: extends_by_mono loop_event_late)

lemma main_conversion_late:
  assumes "extends_by late_event s0 s"
  shows "extends_by late_event s0 (main_conversion e s)"
proof -
  define s4 where "s4 = emit (Assign Fc_pts)
     (emit (Assign Fc_format) (emit (Assign Fc_height) (emit (Assign Fc_width) (s\<lparr>fc_width := enc_width s\<rparr>)
        \<lparr>fc_height := enc_height s\<rparr>)\<lparr>fc_format := enc_pix_fmt s\<rparr>)\<lparr>fc_pts := 0\<rparr>)"
  obtain fl s5 where tl: "transcode_loop e (packets e) s4 = (fl, s5)"
    by (cases "transcode_loop e (packets e) s4")
  have s4: "extends_by late_event s0 s4"
    by (simp add: s4_def assms extends_by_emit extends_by_fc)
  have "loop_frame s4 s5"
    using transcode_loop_frame [OF loop_frame_refl, of s4 e "packets e"] tl by simp
  with s4 have s5: "extends_by late_event s0 s5"
    by (blast intro: extends_by_trans loop_frame_late)
  have eq: "main_conversion e s =
      (case fl of Goto_cleanup \<Rightarrow> cleanup e s5 | Falls \<Rightarrow> cleanup e (emit Write_trailer s5))"
    using tl by (simp add: main_conversion_def Let_def s4_def emit_def)
  show ?thesis
    unfolding eq using s5
    by (cases fl) (simp_all add: extends_by_cleanup extends_by_emit)
qed

lemma frame_converter_late:
  assumes "extends_by late_event s0 s"
  shows "extends_by late_event s0 (frame_converter e s)"
  using assms
  by (simp add: frame_converter_def allocate_frames_and_packets_def Let_def
      extends_by_cleanup extends_by_allocate extends_by_acquire extends_by_fault
      extends_by_ret main_conversion_late)

lemma frame_converter_enc_time_base:
  "enc_time_base (frame_converter e s) = enc_time_base s"
  using frame_converter_late [OF extends_by_refl, of s e] by (simp add: extends_by_def)

lemma frame_converter_encoder_fields:
  "enc_width (frame_converter e s) = enc_width s"
  "enc_height (frame_converter e s) = enc_height s"
  "enc_pix_fmt (frame_converter e s) = enc_pix_fmt s"
  using frame_converter_late [OF extends_by_refl, of s e] by (simp_all add: extends_by_def)

subsection \<open>The ways through the function\<close>

text \<open>
  Every run either leaves the function at one of the early returns, where trace and
  state are known outright, or reaches the allocations of line 160 in a known state.
\<close>

lemma step_ok: "\<not> faulted s \<Longrightarrow> step f s = f s"
  by (simp add: step_def)

lemma step_faulted: "faulted s \<Longrightarrow> step f s = s"
  by (simp add: step_def)

lemma step_id: "step (\<lambda>s. s) s = s"
  by (simp add: step_def)

lemmas op_defs = step_ok step_faulted free_by_address_def free_by_value_def acquire_def emit_def
  set_handle_def init_state_def

lemma convert_video_to_h265_cases
  [case_names open_failed source_failed decoder_failed encoder_missing encoder_open_failed
    params_failed avio_failed header_failed converter]:
  obtains
    "convert_video_to_h265 e = init_state"
  | "trace (convert_video_to_h265 e) = [Acquire In_fmt_ctx, Release In_fmt_ctx]"
    "\<not> faulted (convert_video_to_h265 e)"
  | "trace (convert_video_to_h265 e) =
       [Acquire In_fmt_ctx, Acquire Dec_ctx, Release Dec_ctx, Release In_fmt_ctx]"
    "\<not> faulted (convert_video_to_h265 e)"
  | "trace (convert_video_to_h265 e) =
       [Acquire In_fmt_ctx, Acquire Dec_ctx, Acquire Out_fmt_ctx,
        Release Out_fmt_ctx, Release Dec_ctx, Release In_fmt_ctx]"
    "\<not> faulted (convert_video_to_h265 e)"
  | "enc_open_ret (sink e) < 0"
    "trace (convert_video_to_h265 e) =
       [Acquire In_fmt_ctx, Acquire Dec_ctx, Acquire Out_fmt_ctx, Acquire Enc_ctx,
        Assign Enc_height, Assign Enc_width, Assign Enc_sample_aspect_ratio,
        Assign Enc_pix_fmt, Assign Enc_time_base, Open_encoder (enc_open_ret (sink e)),
        Release Enc_ctx, Release Out_fmt_ctx, Release Dec_ctx, Release In_fmt_ctx]"
    "\<not> faulted (convert_video_to_h265 e)"
    "enc_time_base (convert_video_to_h265 e) =
       av_inv_q (if num (dec_framerate (source e)) \<noteq> 0 then dec_framerate (source e)
                 else r_frame_rate (source e))"
  | "0 \<le> enc_open_ret (sink e)" "params_from_context_ret (sink e) < 0"
    "trace (convert_video_to_h265 e) =
       [Acquire In_fmt_ctx, Acquire Dec_ctx, Acquire Out_fmt_ctx, Acquire Enc_ctx,
        Assign Enc_height, Assign Enc_width, Assign Enc_sample_aspect_ratio,
        Assign Enc_pix_fmt, Assign Enc_time_base, Open_encoder (enc_open_ret (sink e)),
        Params_from_context (params_from_context_ret (sink e)),
        Release Enc_ctx, Release Out_fmt_ctx, Release Dec_ctx, Release In_fmt_ctx]"
    "\<not> faulted (convert_video_to_h265 e)"
    "enc_time_base (convert_video_to_h265 e) =
       av_inv_q (if num (dec_framerate (source e)) \<noteq> 0 then dec_framerate (source e)
                 else r_frame_rate (source e))"
  | "0 \<le> enc_open_ret (sink e)" "0 \<le> params_from_context_ret (sink e)"
    "trace (convert_video_to_h265 e) =
       [Acquire In_fmt_ctx, Acquire Dec_ctx, Acquire Out_fmt_ctx, Acquire Enc_ctx,
        Assign Enc_height, Assign Enc_width, Assign Enc_sample_aspect_ratio,
        Assign Enc_pix_fmt, Assign Enc_time_base, Open_encoder (enc_open_ret (sink e)),
        Params_from_context (params_from_context_ret (sink e)), Assign Out_time_base,
        Release Enc_ctx, Release Out_fmt_ctx, Release Dec_ctx, Release In_fmt_ctx]"
    "\<not> faulted (convert_video_to_h265 e)"
    "enc_time_base (convert_video_to_h265 e) =
       av_inv_q (if num (dec_framerate (source e)) \<noteq> 0 then dec_framerate (source e)
                 else r_frame_rate (source e))"
  | "0 \<le> enc_open_ret (sink e)" "0 \<le> params_from_context_ret (sink e)"
    "write_header_ret (sink e) < 0"
    "trace (convert_video_to_h265 e) =
       [Acquire In_fmt_ctx, Acquire Dec_ctx, Acquire Out_fmt_ctx, Acquire Enc_ctx,
        Assign Enc_height, Assign Enc_width, Assign Enc_sample_aspect_ratio,
        Assign Enc_pix_fmt, Assign Enc_time_base, Open_encoder (enc_open_ret (sink e)),
        Params_from_context (params_from_context_ret (sink e)), Assign Out_time_base]
       @ (if nofile (sink e) then [Write_header (write_header_ret (sink e))]
          else [Acquire Out_pb, Write_header (write_header_ret (sink e)), Release Out_pb])
       @ [Release Enc_ctx, Release Out_fmt_ctx, Release Dec_ctx, Release In_fmt_ctx]"
    "\<not> faulted (convert_video_to_h265 e)"
    "enc_time_base (convert_video_to_h265 e) =
       av_inv_q (if num (dec_framerate (source e)) \<noteq> 0 then dec_framerate (source e)
                 else r_frame_rate (source e))"
  | S where "convert_video_to_h265 e = frame_converter e S"
    "0 \<le> enc_open_ret (sink e)" "0 \<le> params_from_context_ret (sink e)"
    "0 \<le> write_header_ret (sink e)"
    "trace S =
       [Acquire In_fmt_ctx, Acquire Dec_ctx, Acquire Out_fmt_ctx, Acquire Enc_ctx,
        Assign Enc_height, Assign Enc_width, Assign Enc_sample_aspect_ratio,
        Assign Enc_pix_fmt, Assign Enc_time_base, Open_encoder (enc_open_ret (sink e)),
        Params_from_context (params_from_context_ret (sink e)), Assign Out_time_base]
       @ (if nofile (sink e) then [] else [Acquire Out_pb])
       @ [Write_header (write_header_ret (sink e))]"
    "\<not> faulted S"
    "\<And>r. handles S r =
       (if r \<in> {In_fmt_ctx, Dec_ctx, Out_fmt_ctx, Enc_ctx} then Live
        else if r = Out_pb \<and> \<not> nofile (sink e) then Live else Null)"
    "enc_time_base S =
       av_inv_q (if num (dec_framerate (source e)) \<noteq> 0 then dec_framerate (source e)
                 else r_frame_rate (source e))"
    "out_time_base S = header_time_base (sink e)"
    "enc_width S = dec_width (source e)" "enc_height S = dec_height (source e)"
    "enc_pix_fmt S = AV_PIX_FMT_YUV420P"
proof -
  let ?src = "source e" and ?snk = "sink e"
  define s0 where "s0 = acquire Dec_ctx (acquire In_fmt_ctx init_state)"
  define s2 where "s2 = set_encoder_parameters e (acquire Enc_ctx (acquire Out_fmt_ctx s0))"
  define s4 where "s4 = emit (Params_from_context (params_from_context_ret ?snk))
     (emit (Open_encoder (enc_open_ret ?snk)) s2)"
  define T where "T = (emit (Write_header (write_header_ret ?snk))
     (allocate Out_pb (\<not> nofile ?snk)
       (emit (Assign Out_time_base) (s4\<lparr>out_time_base := enc_time_base s4\<rparr>))))
     \<lparr>out_time_base := header_time_base ?snk\<rparr>"
  note defs = set_encoder_parameters_def Let_def op_defs allocate_def
  have s2: "trace s2 =
      [Acquire In_fmt_ctx, Acquire Dec_ctx, Acquire Out_fmt_ctx, Acquire Enc_ctx,
       Assign Enc_height, Assign Enc_width, Assign Enc_sample_aspect_ratio,
       Assign Enc_pix_fmt, Assign Enc_time_base]"
    "handles s2 = (\<lambda>r. Null)(In_fmt_ctx := Live, Dec_ctx := Live, Out_fmt_ctx := Live,
       Enc_ctx := Live)"
    "\<not> faulted s2"
    "enc_time_base s2 =
       av_inv_q (if num (dec_framerate ?src) \<noteq> 0 then dec_framerate ?src
                 else r_frame_rate ?src)"
    "enc_width s2 = dec_width ?src" "enc_height s2 = dec_height ?src"
    "enc_pix_fmt s2 = AV_PIX_FMT_YUV420P"
    by (simp_all add: s2_def s0_def defs)
  note exit_defs = step_ok step_faulted free_by_address_def free_by_value_def acquire_def
    emit_def set_handle_def
  consider
      (a) "open_input_ret ?src < 0"
    | (b) "\<not> open_input_ret ?src < 0"
          "find_stream_info_ret ?src < 0 \<or> best_stream_ret ?src < 0 \<or> \<not> decoder_found ?src
           \<or> \<not> dec_ctx_allocated ?src"
    | (c) "\<not> open_input_ret ?src < 0" "\<not> find_stream_info_ret ?src < 0"
          "\<not> best_stream_ret ?src < 0" "decoder_found ?src" "dec_ctx_allocated ?src"
          "params_to_context_ret ?src < 0 \<or> dec_open_ret ?src < 0"
    | (d) "\<not> open_input_ret ?src < 0" "\<not> find_stream_info_ret ?src < 0"
          "\<not> best_stream_ret ?src < 0" "decoder_found ?src" "dec_ctx_allocated ?src"
          "\<not> params_to_context_ret ?src < 0" "\<not> dec_open_ret ?src < 0"
    by argo
  then show thesis
  proof cases
    case a
    then show thesis using that(1) by (simp add: convert_video_to_h265_def)
  next
    case b
    show thesis
      by (rule that(2)) (use b in \<open>elim disjE; simp add: convert_video_to_h265_def defs\<close>)+
  next
    case c
    show thesis
      by (rule that(3)) (use c in \<open>elim disjE; simp add: convert_video_to_h265_def defs\<close>)+
  next
    case d
    then have run: "convert_video_to_h265 e = sink_builder e s0"
      by (simp add: convert_video_to_h265_def Let_def s0_def)
    consider
        (c') "alloc_output_ret ?snk < 0"
      | (e) "\<not> alloc_output_ret ?snk < 0"
            "\<not> encoder_found ?snk \<or> \<not> out_stream_allocated ?snk \<or> \<not> enc_ctx_allocated ?snk"
      | (f) "\<not> alloc_output_ret ?snk < 0"
            "encoder_found ?snk" "out_stream_allocated ?snk" "enc_ctx_allocated ?snk"
            "enc_open_ret ?snk < 0"
      | (g) "\<not> alloc_output_ret ?snk < 0"
            "encoder_found ?snk" "out_stream_allocated ?snk" "enc_ctx_allocated ?snk"
            "\<not> enc_open_ret ?snk < 0" "params_from_context_ret ?snk < 0"
      | (h) "\<not> alloc_output_ret ?snk < 0"
            "encoder_found ?snk" "out_stream_allocated ?snk" "enc_ctx_allocated ?snk"
            "\<not> enc_open_ret ?snk < 0" "\<not> params_from_context_ret ?snk < 0"
            "\<not> nofile ?snk" "avio_open_ret ?snk < 0"
      | (i) "\<not> alloc_output_ret ?snk < 0"
            "encoder_found ?snk" "out_stream_allocated ?snk" "enc_ctx_allocated ?snk"
            "\<not> enc_open_ret ?snk < 0" "\<not> params_from_context_ret ?snk < 0"
            "\<not> (\<not> nofile ?snk \<and> avio_open_ret ?snk < 0)" "write_header_ret ?snk < 0"
      | (j) "\<not> alloc_output_ret ?snk < 0"
            "encoder_found ?snk" "out_stream_allocated ?snk" "enc_ctx_allocated ?snk"
            "\<not> enc_open_ret ?snk < 0" "\<not> params_from_context_ret ?snk < 0"
            "\<not> (\<not> nofile ?snk \<and> avio_open_ret ?snk < 0)" "\<not> write_header_ret ?snk < 0"
      by argo
    then show thesis
    proof cases
      case c'
      show thesis
        by (rule that(3)) (use c' in \<open>simp add: run s0_def sink_builder_def defs\<close>)+
    next
      case e
      show thesis
        by (rule that(4)) (use e in \<open>elim disjE; simp add: run s0_def sink_builder_def defs\<close>)+
    next
      case f
      then have "convert_video_to_h265 e =
          fold step [avcodec_free_context Enc_ctx, avformat_free_context,
            avcodec_free_context Dec_ctx, avformat_close_input]
            (emit (Open_encoder (enc_open_ret ?snk)) s2)"
        by (simp add: run sink_builder_def Let_def s2_def)
      with f show thesis
        by (intro that(5)) (simp_all add: exit_defs s2)
    next
      case g
      then have "convert_video_to_h265 e =
          fold step [avcodec_free_context Enc_ctx, avformat_free_context,
            avcodec_free_context Dec_ctx, avformat_close_input] s4"
        by (simp add: run sink_builder_def Let_def s2_def s4_def)
      with g show thesis
        by (intro that(6)) (simp_all add: exit_defs s2 s4_def)
    next
      case h
      then have "convert_video_to_h265 e =
          fold step [avcodec_free_context Enc_ctx, avformat_free_context,
            avcodec_free_context Dec_ctx, avformat_close_input]
            (emit (Assign Out_time_base) (s4\<lparr>out_time_base := enc_time_base s4\<rparr>))"
        by (simp add: run sink_builder_def Let_def s2_def s4_def)
      with h show thesis
        by (intro that(7)) (simp_all add: exit_defs s2 s4_def)
    next
      case i
      show thesis
      proof (cases "nofile ?snk")
        case True
        with i have "convert_video_to_h265 e =
            fold step [avcodec_free_context Enc_ctx, avformat_free_context,
              avcodec_free_context Dec_ctx, avformat_close_input]
              (emit (Write_header (write_header_ret ?snk))
                (emit (Assign Out_time_base) (s4\<lparr>out_time_base := enc_time_base s4\<rparr>)))"
          by (simp add: run sink_builder_def Let_def s2_def s4_def step_id)
        with i True show thesis
          by (intro that(8)) (simp_all add: exit_defs s2 s4_def)
      next
        case False
        with i have "convert_video_to_h265 e =
            fold step [avio_closep, avcodec_free_context Enc_ctx, avformat_free_context,
              avcodec_free_context Dec_ctx, avformat_close_input]
              (emit (Write_header (write_header_ret ?snk))
                (acquire Out_pb
                  (emit (Assign Out_time_base) (s4\<lparr>out_time_base := enc_time_base s4\<rparr>))))"
          by (simp add: run sink_builder_def Let_def s2_def s4_def)
        with i False show thesis
          by (intro that(8)) (simp_all add: exit_defs s2 s4_def)
      qed
    next
      case j
      then have "convert_video_to_h265 e = frame_converter e T"
        by (cases "nofile ?snk")
          (simp_all add: run sink_builder_def Let_def T_def s4_def s2_def allocate_def)
      moreover have "trace T =
         [Acquire In_fmt_ctx, Acquire Dec_ctx, Acquire Out_fmt_ctx, Acquire Enc_ctx,
          Assign Enc_height, Assign Enc_width, Assign Enc_sample_aspect_ratio,
          Assign Enc_pix_fmt, Assign Enc_time_base, Open_encoder (enc_open_ret (sink e)),
          Params_from_context (params_from_context_ret (sink e)), Assign Out_time_base]
         @ (if nofile (sink e) then [] else [Acquire Out_pb])
         @ [Write_header (write_header_ret (sink e))]"
        by (simp add: T_def s4_def s2 allocate_def acquire_def emit_def set_handle_def)
      moreover have "\<not> faulted T"
        by (simp add: T_def s4_def s2 allocate_def acquire_def emit_def set_handle_def)
      moreover have "handles T r =
         (if r \<in> {In_fmt_ctx, Dec_ctx, Out_fmt_ctx, Enc_ctx} then Live
          else if r = Out_pb \<and> \<not> nofile (sink e) then Live else Null)" for r
        by (simp add: T_def s4_def s2 allocate_def acquire_def emit_def set_handle_def)
      moreover have "enc_time_base T =
         av_inv_q (if num (dec_framerate (source e)) \<noteq> 0 then dec_framerate (source e)
                   else r_frame_rate (source e))"
        "out_time_base T = header_time_base (sink e)"
        "enc_width T = dec_width (source e)" "enc_height T = dec_height (source e)"
        "enc_pix_fmt T = AV_PIX_FMT_YUV420P"
        by (simp_all add: T_def s4_def s2 allocate_def acquire_def emit_def set_handle_def)
      ultimately show thesis using j by (intro that(9) [of T]) simp_all
    qed
  qed
qed

lemma frame_converter_trace:
  obtains t where "trace (frame_converter e s) = trace s @ t" "list_all late_event t"
  using frame_converter_late [OF extends_by_refl, of s e] by (auto simp: extends_by_def)

lemma list_all_not_mem: "list_all K t \<Longrightarrow> \<not> K x \<Longrightarrow> x \<notin> set t"
  by (auto simp: list_all_iff)

lemma list_all_count_0: "list_all K t \<Longrightarrow> \<not> K x \<Longrightarrow> count_list t x = 0"
  by (simp add: list_all_not_mem)

subsection \<open>The shape of the trace after the header write\<close>

lemma loop_event_tail: "loop_event ev \<Longrightarrow> tail_event ev"
  by (cases ev) auto

lemma free_by_address_preserves:
  assumes "\<And>ev s. g (emit ev s) = g s" "\<And>r p s. g (set_handle r p s) = g s"
    "\<And>s. g (fault s) = g s"
  shows "g (free_by_address r s) = g s"
  by (cases "handles s r") (simp_all add: free_by_address_def assms)

lemma free_by_value_preserves:
  assumes "\<And>ev s. g (emit ev s) = g s" "\<And>r p s. g (set_handle r p s) = g s"
    "\<And>s. g (fault s) = g s"
  shows "g (free_by_value r s) = g s"
  by (cases "handles s r") (simp_all add: free_by_value_def assms)

lemma fold_step_preserves:
  assumes "\<And>f s. f \<in> set fs \<Longrightarrow> g (f s) = g s"
  shows "g (fold step fs s) = g s"
  using assms by (induction fs arbitrary: s) (simp_all add: step_def)

lemma cleanup_preserves:
  assumes "\<And>ev s. g (emit ev s) = g s" "\<And>r p s. g (set_handle r p s) = g s"
    "\<And>s. g (fault s) = g s"
  shows "g (cleanup e s) = g s"
  unfolding cleanup_def
  by (rule fold_step_preserves)
    (auto simp: free_by_address_preserves [of g, OF assms] free_by_value_preserves [of g, OF assms]
      av_freep_data0_def close_output_if_file_def assms split: ptr.splits)

lemma cleanup_geometry:
  "fc_width (cleanup e s) = fc_width s" "fc_height (cleanup e s) = fc_height s"
  "fc_format (cleanup e s) = fc_format s"
  by (rule cleanup_preserves; simp add: emit_def set_handle_def fault_def)+

lemma main_conversion_shape:
  obtains t where
    "trace (main_conversion e s) =
       trace s @ [Assign Fc_width, Assign Fc_height, Assign Fc_format, Assign Fc_pts] @ t"
    "list_all tail_event t"
    "fc_width (main_conversion e s) = enc_width s"
    "fc_height (main_conversion e s) = enc_height s"
    "fc_format (main_conversion e s) = enc_pix_fmt s"
proof -
  define s4 where "s4 = emit (Assign Fc_pts)
     (emit (Assign Fc_format) (emit (Assign Fc_height) (emit (Assign Fc_width) (s\<lparr>fc_width := enc_width s\<rparr>)
        \<lparr>fc_height := enc_height s\<rparr>)\<lparr>fc_format := enc_pix_fmt s\<rparr>)\<lparr>fc_pts := 0\<rparr>)"
  obtain fl s5 where tl: "transcode_loop e (packets e) s4 = (fl, s5)"
    by (cases "transcode_loop e (packets e) s4")
  have s4: "trace s4 = trace s @ [Assign Fc_width, Assign Fc_height, Assign Fc_format, Assign Fc_pts]"
    "fc_width s4 = enc_width s" "fc_height s4 = enc_height s" "fc_format s4 = enc_pix_fmt s"
    by (simp_all add: s4_def emit_def)
  have lf: "loop_frame s4 s5"
    using transcode_loop_frame [OF loop_frame_refl, of s4 e "packets e"] tl by simp
  then have "extends_by tail_event s4 s5"
    by (auto simp: loop_frame_def intro: extends_by_mono loop_event_tail)
  moreover have eq: "main_conversion e s =
      (case fl of Goto_cleanup \<Rightarrow> cleanup e s5 | Falls \<Rightarrow> cleanup e (emit Write_trailer s5))"
    using tl by (simp add: main_conversion_def Let_def s4_def emit_def)
  ultimately have "extends_by tail_event s4 (main_conversion e s)"
    by (cases fl) (simp_all add: extends_by_cleanup extends_by_emit)
  then obtain t where t: "trace (main_conversion e s) = trace s4 @ t" "list_all tail_event t"
    by (auto simp: extends_by_def)
  have "fc_width (main_conversion e s) = fc_width s5" "fc_height (main_conversion e s) = fc_height s5"
    "fc_format (main_conversion e s) = fc_format s5"
    unfolding eq by (cases fl; simp add: cleanup_geometry emit_def)+
  with lf s4 have "fc_width (main_conversion e s) = enc_width s"
    "fc_height (main_conversion e s) = enc_height s"
    "fc_format (main_conversion e s) = enc_pix_fmt s"
    by (simp_all add: loop_frame_def)
  with t s4 that show thesis
    by simp
qed

lemma frame_converter_paths:
  obtains (no_loop) "extends_by bracket_event s (frame_converter e s)"
  | (loop) s' where "extends_by bracket_event s s'"
      "frame_converter e s = main_conversion e s'"
proof -
  define s4 where "s4 = allocate_frames_and_packets e s"
  define s6 where "s6 = (acquire Sws_ctx s4)\<lparr>ret := image_alloc_ret (converter e)\<rparr>"
  have s4: "extends_by bracket_event s s4"
    by (simp add: s4_def allocate_frames_and_packets_def Let_def extends_by_allocate
        extends_by_refl)
  then have s6: "extends_by bracket_event s s6"
    by (simp add: s6_def extends_by_acquire extends_by_ret)
  consider (a) "\<not> sws_allocated (converter e)"
    | (b) "sws_allocated (converter e)" "handles (acquire Sws_ctx s4) Frame_converted \<noteq> Live"
    | (c) "sws_allocated (converter e)" "handles (acquire Sws_ctx s4) Frame_converted = Live"
        "image_alloc_ret (converter e) < 0"
    | (d) "sws_allocated (converter e)" "handles (acquire Sws_ctx s4) Frame_converted = Live"
        "\<not> image_alloc_ret (converter e) < 0"
    by argo
  then show thesis
  proof cases
    case a
    then have "frame_converter e s = cleanup e s4"
      by (simp add: frame_converter_def Let_def s4_def)
    with s4 show thesis
      by (intro no_loop) (simp add: extends_by_cleanup)
  next
    case b
    then have "frame_converter e s = fault (acquire Sws_ctx s4)"
      by (simp add: frame_converter_def Let_def s4_def)
    with s4 show thesis
      by (intro no_loop) (simp add: extends_by_fault extends_by_acquire)
  next
    case c
    then have "frame_converter e s = cleanup e s6"
      by (simp add: frame_converter_def Let_def s4_def s6_def)
    with s6 show thesis
      by (intro no_loop) (simp add: extends_by_cleanup)
  next
    case d
    then have "frame_converter e s = main_conversion e (acquire Image_buf s6)"
      by (simp add: frame_converter_def Let_def s4_def s6_def)
    moreover have "extends_by bracket_event s (acquire Image_buf s6)"
      using s6 by (simp add: extends_by_acquire)
    ultimately show thesis
      by (intro loop [of "acquire Image_buf s6"])
  qed
qed

lemma frame_converter_shape:
  obtains (no_loop) t where "trace (frame_converter e s) = trace s @ t" "list_all bracket_event t"
  | (loop) a t where
      "trace (frame_converter e s) =
         trace s @ a @ [Assign Fc_width, Assign Fc_height, Assign Fc_format, Assign Fc_pts] @ t"
      "list_all bracket_event a" "list_all tail_event t"
      "fc_width (frame_converter e s) = enc_width s"
      "fc_height (frame_converter e s) = enc_height s"
      "fc_format (frame_converter e s) = enc_pix_fmt s"
proof (cases e s rule: frame_converter_paths)
  case no_loop
  then show thesis
    using that(1) by (auto simp: extends_by_def)
next
  case (loop s')
  then obtain a where a: "trace s' = trace s @ a" "list_all bracket_event a"
    "enc_width s' = enc_width s" "enc_height s' = enc_height s" "enc_pix_fmt s' = enc_pix_fmt s"
    by (auto simp: extends_by_def)
  obtain t where "trace (main_conversion e s') =
      trace s' @ [Assign Fc_width, Assign Fc_height, Assign Fc_format, Assign Fc_pts] @ t"
    "list_all tail_event t"
    "fc_width (main_conversion e s') = enc_width s'"
    "fc_height (main_conversion e s') = enc_height s'"
    "fc_format (main_conversion e s') = enc_pix_fmt s'"
    by (rule main_conversion_shape)
  with a loop(2) show thesis
    by (intro that(2) [of a t]) simp_all
qed

subsection \<open>Single rounds of the loops\<close>

lemma transcode_loop_reads:
  assumes "handles s Packet_in = Live"
  shows "\<exists>rest. trace (snd (transcode_loop e ps s)) =
           trace s @ Read_frame (if ps = [] then - 1 else 0) # rest"
proof (cases ps)
  case Nil
  with assms show ?thesis by (simp add: emit_def)
next
  case (Cons p ps')
  define s1 where "s1 = emit (Read_frame 0) s"
  define s2 where "s2 = emit (Send_packet (send_packet_ret p)) (s1\<lparr>ret := send_packet_ret p\<rparr>)"
  obtain fl s3 where dd: "decode_drain e (dec_answers p) s2 = (fl, s3)"
    by (cases "decode_drain e (dec_answers p) s2")
  have s2: "loop_frame s1 s2"
    by (simp add: s2_def loop_frame_refl loop_frame_intros)
  then have s3: "loop_frame s1 s3"
    using decode_drain_frame [of s1 s2 e "dec_answers p"] dd by simp
  then have a: "loop_frame s1 (snd (transcode_loop e ps' (emit (Unref Packet_in) s3)))"
    by (simp add: transcode_loop_frame loop_frame_intros)
  have b: "loop_frame s1 (snd (transcode_loop e ps' (emit (Unref Packet_in) s1)))"
    by (simp add: transcode_loop_frame loop_frame_refl loop_frame_intros)
  have "loop_frame s1 (snd (transcode_loop e (p # ps') s))"
    using assms dd s2 s3 a b
    by (simp add: Let_def s1_def [symmetric] s2_def [symmetric] split: flow.splits)
  then obtain t where "trace (snd (transcode_loop e (p # ps') s)) = trace s1 @ t"
    by (auto simp: loop_frame_def extends_by_def)
  then show ?thesis
    by (simp add: Cons s1_def emit_def)
qed






subsection \<open>Timestamps\<close>

lemma received_pts_append: "received_pts (xs @ ys) = received_pts xs @ received_pts ys"
  by (induction xs rule: received_pts.induct) simp_all

lemma written_pts_append: "written_pts (xs @ ys) = written_pts xs @ written_pts ys"
  by (induction xs rule: written_pts.induct) simp_all

lemma quiet_pts:
  assumes "list_all K t" "\<And>a b. \<not> K (Rescale_ts a b)" "\<And>a r. \<not> K (Write_frame a r)"
  shows "received_pts t = [] \<and> written_pts t = []"
  using assms(1)
proof (induction t)
  case Nil
  show ?case by simp
next
  case (Cons ev t)
  with assms(2,3) show ?case by (cases ev) auto
qed

lemma pts_ok_extends:
  assumes "extends_by K s s'" "\<And>a b. \<not> K (Rescale_ts a b)" "\<And>a r. \<not> K (Write_frame a r)"
    and "pts_ok s"
  shows "pts_ok s'"
proof -
  from assms(1) obtain t where t: "trace s' = trace s @ t" "list_all K t"
    and tb: "enc_time_base s' = enc_time_base s" "out_time_base s' = out_time_base s"
    by (auto simp: extends_by_def)
  from quiet_pts [OF t(2) assms(2,3)] t(1) tb assms(4) show ?thesis
    by (simp add: pts_ok_def received_pts_append written_pts_append)
qed

lemma pts_ok_emit:
  "pts_ok s \<Longrightarrow> received_pts [ev] = [] \<Longrightarrow> written_pts [ev] = [] \<Longrightarrow> pts_ok (emit ev s)"
  by (simp add: pts_ok_def emit_def received_pts_append written_pts_append)

lemma pts_ok_ret: "pts_ok s \<Longrightarrow> pts_ok (s\<lparr>ret := r\<rparr>)"
  by (simp add: pts_ok_def)

lemma pts_ok_fc:
  "pts_ok s \<Longrightarrow> pts_ok (s\<lparr>fc_pts := a\<rparr>)"
  "pts_ok s \<Longrightarrow> pts_ok (s\<lparr>fc_width := b\<rparr>)"
  "pts_ok s \<Longrightarrow> pts_ok (s\<lparr>fc_height := b\<rparr>)"
  "pts_ok s \<Longrightarrow> pts_ok (s\<lparr>fc_format := c\<rparr>)"
  by (simp_all add: pts_ok_def)

lemma pts_ok_fault: "pts_ok s \<Longrightarrow> pts_ok (fault s)"
  by (simp add: pts_ok_def fault_def)

lemmas pts_ok_intros = pts_ok_emit pts_ok_ret pts_ok_fc pts_ok_fault

lemma pts_ok_write:
  assumes "pts_ok s"
  shows "pts_ok (emit (Write_frame (av_rescale_q a (enc_time_base s) (out_time_base s)) w)
           (emit (Assign Pkt_stream_index)
             (emit (Rescale_ts a (av_rescale_q a (enc_time_base s) (out_time_base s)))
               (emit (Receive_packet r) (s\<lparr>ret := r\<rparr>)))))"
  using assms by (simp add: pts_ok_def emit_def received_pts_append written_pts_append)

lemma encode_drain_pts: "pts_ok s \<Longrightarrow> pts_ok (snd (encode_drain e as s))"
proof (induction as arbitrary: s)
  case Nil
  then show ?case by (simp add: pts_ok_intros)
next
  case (Cons a as)
  have tb: "enc_time_base (emit ev (s\<lparr>ret := r\<rparr>)) = enc_time_base s"
    "out_time_base (emit ev (s\<lparr>ret := r\<rparr>)) = out_time_base s" for ev r
    by (simp_all add: emit_def)
  show ?case
    using Cons.prems pts_ok_write [OF Cons.prems]
    by (simp add: Let_def tb Cons.IH pts_ok_intros)
qed

lemma decode_drain_pts: "pts_ok s \<Longrightarrow> pts_ok (snd (decode_drain e as s))"
proof (induction as arbitrary: s)
  case Nil
  then show ?case by (simp add: pts_ok_intros)
next
  case (Cons a as)
  define s4 where "s4 = emit (Send_frame (send_frame_ret a))
     (emit (Assign Fc_pts) (emit Sws_scale (emit (Receive_frame (receive_frame_ret a))
        (s\<lparr>ret := receive_frame_ret a\<rparr>))\<lparr>fc_pts := frame_pts a\<rparr>)\<lparr>ret := send_frame_ret a\<rparr>)"
  obtain fl s5 where ed: "encode_drain e (enc_answers a) s4 = (fl, s5)"
    by (cases "encode_drain e (enc_answers a) s4")
  have s4: "pts_ok s4"
    by (simp add: s4_def Cons.prems pts_ok_intros)
  then have s5: "pts_ok s5"
    using encode_drain_pts [of s4 e "enc_answers a"] ed by simp
  then have "pts_ok (snd (decode_drain e as (emit (Unref Frame_decoded) s5)))"
    by (simp add: Cons.IH pts_ok_intros)
  with s4 s5 show ?case
    using ed by (simp add: Let_def Cons.prems pts_ok_intros s4_def [symmetric] split: flow.splits)
qed

lemma transcode_loop_pts: "pts_ok s \<Longrightarrow> pts_ok (snd (transcode_loop e ps s))"
proof (induction ps arbitrary: s)
  case Nil
  then show ?case by (simp add: pts_ok_intros)
next
  case (Cons p ps)
  define s2 where "s2 = emit (Send_packet (send_packet_ret p)) (emit (Read_frame 0) s\<lparr>ret := send_packet_ret p\<rparr>)"
  obtain fl s3 where dd: "decode_drain e (dec_answers p) s2 = (fl, s3)"
    by (cases "decode_drain e (dec_answers p) s2")
  have s2: "pts_ok s2"
    by (simp add: s2_def Cons.prems pts_ok_intros)
  then have s3: "pts_ok s3"
    using decode_drain_pts [of s2 e "dec_answers p"] dd by simp
  then have "pts_ok (snd (transcode_loop e ps (emit (Unref Packet_in) s3)))"
    by (simp add: Cons.IH pts_ok_intros)
  with s2 s3 show ?case
    using dd by (simp add: Let_def Cons.prems Cons.IH pts_ok_intros s2_def [symmetric] split: flow.splits)
qed

lemma pts_ok_cleanup: "pts_ok s \<Longrightarrow> pts_ok (cleanup e s)"
  by (rule pts_ok_extends [of bracket_event s])
    (simp_all add: extends_by_cleanup extends_by_refl)

lemma main_conversion_pts:
  assumes "pts_ok s"
  shows "pts_ok (main_conversion e s)"
proof -
  define s4 where "s4 = emit (Assign Fc_pts)
     (emit (Assign Fc_format) (emit (Assign Fc_height) (emit (Assign Fc_width) (s\<lparr>fc_width := enc_width s\<rparr>)
        \<lparr>fc_height := enc_height s\<rparr>)\<lparr>fc_format := enc_pix_fmt s\<rparr>)\<lparr>fc_pts := 0\<rparr>)"
  obtain fl s5 where tl: "transcode_loop e (packets e) s4 = (fl, s5)"
    by (cases "transcode_loop e (packets e) s4")
  have "pts_ok s4"
    by (simp add: s4_def assms pts_ok_intros)
  then have s5: "pts_ok s5"
    using transcode_loop_pts [of s4 e "packets e"] tl by simp
  have eq: "main_conversion e s =
      (case fl of Goto_cleanup \<Rightarrow> cleanup e s5 | Falls \<Rightarrow> cleanup e (emit Write_trailer s5))"
    using tl by (simp add: main_conversion_def Let_def s4_def emit_def)
  show ?thesis
    unfolding eq using s5 by (cases fl) (simp_all add: pts_ok_cleanup pts_ok_intros)
qed

lemma frame_converter_pts:
  assumes "pts_ok s"
  shows "pts_ok (frame_converter e s)"
proof (cases e s rule: frame_converter_paths)
  case no_loop
  then show ?thesis
    by (rule pts_ok_extends) (simp_all add: assms)
next
  case (loop s')
  from loop(1) have "pts_ok s'"
    by (rule pts_ok_extends) (simp_all add: assms)
  then show ?thesis
    by (simp add: loop(2) main_conversion_pts)
qed

lemma round_div_mono:
  assumes "0 < c" "x \<le> y"
  shows "round_div x c \<le> round_div y c"
proof -
  have h: "0 \<le> c div 2"
    using assms(1) by simp
  consider "0 \<le> x" | "x < 0" "0 \<le> y" | "y < 0"
    using assms(2) by linarith
  then show ?thesis
  proof cases
    case 1
    with assms show ?thesis
      by (simp add: round_div_def zdiv_mono1)
  next
    case 2
    have "0 \<le> (- x + c div 2) div c" "0 \<le> (y + c div 2) div c"
      using 2 h assms(1) by (simp_all add: pos_imp_zdiv_nonneg_iff)
    with 2 show ?thesis
      by (simp add: round_div_def)
  next
    case 3
    then have "(- y + c div 2) div c \<le> (- x + c div 2) div c"
      using assms by (intro zdiv_mono1) simp_all
    with 3 assms(2) show ?thesis
      by (simp add: round_div_def)
  qed
qed

lemma av_rescale_q_mono:
  assumes "0 < num bq" "0 < den bq" "0 < num cq" "0 < den cq" "a \<le> a'"
  shows "av_rescale_q a bq cq \<le> av_rescale_q a' bq cq"
  unfolding av_rescale_q_def
  using assms by (intro round_div_mono mult_right_mono mult_pos_pos) simp_all

subsection \<open>Acquisitions and releases\<close>

lemma ledger_emit: "ledger s \<Longrightarrow> \<not> bracket_event ev \<Longrightarrow> ledger (emit ev s)"
  by (cases ev) (simp_all add: ledger_def account_def emit_def)

lemma ledger_fault: "ledger s \<Longrightarrow> ledger (fault s)"
  by (simp add: ledger_def account_def fault_def)

lemma ledger_ret: "ledger s \<Longrightarrow> ledger (s\<lparr>ret := x\<rparr>)"
  by (simp add: ledger_def account_def)

lemma ledger_fc:
  "ledger s \<Longrightarrow> ledger (s\<lparr>fc_pts := a\<rparr>)"
  "ledger s \<Longrightarrow> ledger (s\<lparr>fc_width := b\<rparr>)"
  "ledger s \<Longrightarrow> ledger (s\<lparr>fc_height := b\<rparr>)"
  "ledger s \<Longrightarrow> ledger (s\<lparr>fc_format := c\<rparr>)"
  by (simp_all add: ledger_def account_def)

lemma account_acquire:
  assumes "account r' s" "account r s" "count_list (trace s) (Acquire r) = 0"
  shows "account r' (acquire r s)"
proof (cases "r' = r")
  case True
  with assms(2,3) show ?thesis
    by (simp add: account_def acquire_def emit_def set_handle_def split: if_splits)
next
  case False
  with assms(1) show ?thesis
    by (simp add: account_def acquire_def emit_def set_handle_def)
qed

lemma ledger_acquire:
  "ledger s \<Longrightarrow> count_list (trace s) (Acquire r) = 0 \<Longrightarrow> ledger (acquire r s)"
  by (simp add: ledger_def account_acquire)

lemma ledger_allocate:
  "ledger s \<Longrightarrow> count_list (trace s) (Acquire r) = 0 \<Longrightarrow> ledger (allocate r ok s)"
  by (simp add: allocate_def ledger_acquire)

lemma count_acquire_allocate:
  "count_list (trace (allocate r ok s)) (Acquire r') =
     count_list (trace s) (Acquire r') + (if ok \<and> r = r' then 1 else 0)"
  by (simp add: allocate_def acquire_def emit_def set_handle_def)

lemma count_acquire_acquire:
  "count_list (trace (acquire r s)) (Acquire r') =
     count_list (trace s) (Acquire r') + (if r = r' then 1 else 0)"
  by (simp add: acquire_def emit_def set_handle_def)

lemma account_release:
  assumes "account r' s" "account r s" "handles s r = Live" "p \<noteq> Live"
  shows "account r' (emit (Release r) (set_handle r p s))"
proof (cases "r' = r")
  case True
  with assms(2-4) show ?thesis
    by (simp add: account_def emit_def set_handle_def)
next
  case False
  with assms(1) show ?thesis
    by (simp add: account_def emit_def set_handle_def)
qed

lemma ledger_release:
  "ledger s \<Longrightarrow> handles s r = Live \<Longrightarrow> p \<noteq> Live \<Longrightarrow>
   ledger (emit (Release r) (set_handle r p s))"
  by (simp add: ledger_def account_release)

lemma ledger_free_by_address: "ledger s \<Longrightarrow> ledger (free_by_address r s)"
  by (cases "handles s r") (simp_all add: free_by_address_def ledger_release ledger_fault)

lemma ledger_free_by_value: "ledger s \<Longrightarrow> ledger (free_by_value r s)"
  by (cases "handles s r") (simp_all add: free_by_value_def ledger_release ledger_fault)

lemma fold_step_invariant:
  assumes "\<And>f s. f \<in> set fs \<Longrightarrow> P s \<Longrightarrow> P (f s)" "P s"
  shows "P (fold step fs s)"
  using assms by (induction fs arbitrary: s) (simp_all add: step_def)

lemma ledger_cleanup: "ledger s \<Longrightarrow> ledger (cleanup e s)"
  unfolding cleanup_def
  by (rule fold_step_invariant)
    (auto simp: ledger_free_by_address ledger_free_by_value ledger_fault
      av_freep_data0_def close_output_if_file_def split: ptr.splits)

lemma ledger_loop_frame:
  assumes "loop_frame s s'" "ledger s"
  shows "ledger s'"
proof -
  from assms(1) obtain t where t: "trace s' = trace s @ t" "list_all loop_event t"
    and h: "handles s' = handles s"
    by (auto simp: loop_frame_def extends_by_def)
  have "count_list t (Acquire r) = 0" "count_list t (Release r) = 0" for r
    using t(2) by (simp_all add: list_all_count_0)
  with t(1) h assms(2) show ?thesis
    by (simp add: ledger_def account_def)
qed

lemma main_conversion_ledger:
  assumes "ledger s"
  shows "ledger (main_conversion e s)"
proof -
  define s4 where "s4 = emit (Assign Fc_pts)
     (emit (Assign Fc_format) (emit (Assign Fc_height) (emit (Assign Fc_width) (s\<lparr>fc_width := enc_width s\<rparr>)
        \<lparr>fc_height := enc_height s\<rparr>)\<lparr>fc_format := enc_pix_fmt s\<rparr>)\<lparr>fc_pts := 0\<rparr>)"
  obtain fl s5 where tl: "transcode_loop e (packets e) s4 = (fl, s5)"
    by (cases "transcode_loop e (packets e) s4")
  have "ledger s4"
    by (simp add: s4_def assms ledger_emit ledger_fc)
  moreover have "loop_frame s4 s5"
    using transcode_loop_frame [OF loop_frame_refl, of s4 e "packets e"] tl by simp
  ultimately have s5: "ledger s5"
    by (blast intro: ledger_loop_frame)
  have eq: "main_conversion e s =
      (case fl of Goto_cleanup \<Rightarrow> cleanup e s5 | Falls \<Rightarrow> cleanup e (emit Write_trailer s5))"
    using tl by (simp add: main_conversion_def Let_def s4_def emit_def)
  show ?thesis
    unfolding eq using s5 by (cases fl) (simp_all add: ledger_cleanup ledger_emit)
qed

lemma dead_fault: "dead r (fault s)"
  by (simp add: dead_def fault_def)

lemma dead_emit: "dead r s \<Longrightarrow> dead r (emit ev s)"
  by (simp add: dead_def emit_def)

lemma dead_free_by_address_self: "dead r (free_by_address r s)"
  by (cases "handles s r")
    (simp_all add: dead_def free_by_address_def emit_def set_handle_def fault_def)

lemma dead_free_by_value_self: "dead r (free_by_value r s)"
  by (cases "handles s r")
    (simp_all add: dead_def free_by_value_def emit_def set_handle_def fault_def)

lemma dead_free_by_address: "dead r s \<Longrightarrow> dead r (free_by_address r' s)"
  by (cases "handles s r'")
    (auto simp: dead_def free_by_address_def emit_def set_handle_def fault_def)

lemma dead_free_by_value: "dead r s \<Longrightarrow> dead r (free_by_value r' s)"
  by (cases "handles s r'")
    (auto simp: dead_def free_by_value_def emit_def set_handle_def fault_def)

lemma dead_close_output: "dead r s \<Longrightarrow> dead r (close_output_if_file e s)"
  by (cases "handles s Out_fmt_ctx")
    (simp_all add: close_output_if_file_def dead_free_by_address dead_fault)

lemma dead_av_freep_data0: "dead r s \<Longrightarrow> dead r (av_freep_data0 s)"
  by (simp add: av_freep_data0_def dead_free_by_address dead_fault)

lemma dead_av_freep_data0_self: "dead Image_buf (av_freep_data0 s)"
  by (simp add: av_freep_data0_def dead_free_by_address_self dead_fault)

lemma dead_guarded_sws:
  "dead r s \<Longrightarrow> dead r (if handles s Sws_ctx \<noteq> Null then sws_freeContext s else s)"
  by (simp add: dead_free_by_value)

lemma dead_guarded_sws_self:
  "dead Sws_ctx (if handles s Sws_ctx \<noteq> Null then sws_freeContext s else s)"
  by (simp add: dead_free_by_value_self) (simp add: dead_def)

lemma dead_step: "(\<And>s. dead r s \<Longrightarrow> dead r (f s)) \<Longrightarrow> dead r s \<Longrightarrow> dead r (step f s)"
  by (simp add: step_def)

lemma dead_step_self: "(\<And>s. dead r (f s)) \<Longrightarrow> dead r (step f s)"
  by (simp add: step_def dead_def)

lemma closable_free_by_address:
  "closable e s \<Longrightarrow> r \<noteq> Out_fmt_ctx \<Longrightarrow> closable e (free_by_address r s)"
  by (cases "handles s r")
    (auto simp: closable_def free_by_address_def emit_def set_handle_def fault_def)

lemma closable_free_by_value:
  "closable e s \<Longrightarrow> r \<noteq> Out_fmt_ctx \<Longrightarrow> closable e (free_by_value r s)"
  by (cases "handles s r")
    (auto simp: closable_def free_by_value_def emit_def set_handle_def fault_def)

lemma closable_step:
  "(\<And>s. closable e s \<Longrightarrow> closable e (f s)) \<Longrightarrow> closable e s \<Longrightarrow> closable e (step f s)"
  by (simp add: step_def)

lemma closable_dead: "closable e s \<Longrightarrow> dead Out_pb (step (close_output_if_file e) s)"
  by (cases "handles s Out_fmt_ctx")
    (auto simp: closable_def step_def dead_def close_output_if_file_def free_by_address_def
      emit_def set_handle_def fault_def split: ptr.splits)

lemma fold_step_after:
  assumes "\<And>f s. f \<in> set pre \<Longrightarrow> Q s \<Longrightarrow> Q (f s)"
    and "\<And>s. Q s \<Longrightarrow> P (step g s)"
    and "\<And>f s. f \<in> set post \<Longrightarrow> P s \<Longrightarrow> P (f s)"
    and "Q s"
  shows "P (fold step (pre @ g # post) s)"
proof -
  have "Q (fold step pre s)"
    using assms(1,4) by (rule fold_step_invariant)
  then have "P (step g (fold step pre s))"
    by (rule assms(2))
  then have "P (fold step post (step g (fold step pre s)))"
    using assms(3) by (intro fold_step_invariant [of post P])
  then show ?thesis
    by simp
qed

lemma fold_step_some:
  assumes "\<And>f s. f \<in> set fs \<Longrightarrow> P s \<Longrightarrow> P (f s)"
    and "\<exists>g \<in> set fs. \<forall>s. P (g s)"
    and "\<And>s. faulted s \<Longrightarrow> P s"
  shows "P (fold step fs s)"
  using assms(1,2)
proof (induction fs arbitrary: s)
  case Nil
  then show ?case by simp
next
  case (Cons f fs)
  show ?case
  proof (cases "\<forall>s. P (f s)")
    case True
    then have "P (step f s)"
      using assms(3) by (simp add: step_def)
    then have "P (fold step fs (step f s))"
      using Cons.prems(1) by (intro fold_step_invariant [of fs P]) simp_all
    then show ?thesis by simp
  next
    case False
    with Cons.prems(2) have "\<exists>g \<in> set fs. \<forall>s. P (g s)"
      by auto
    then have "P (fold step fs (step f s))"
      using Cons.prems(1) by (intro Cons.IH) simp_all
    then show ?thesis by simp
  qed
qed

lemma cleanup_dead_pb:
  assumes "closable e s"
  shows "dead Out_pb (cleanup e s)"
proof -
  have split: "cleanup e s = fold step
      ([\<lambda>s. if handles s Sws_ctx \<noteq> Null then sws_freeContext s else s, av_freep_data0,
        av_frame_free Frame_converted, av_frame_free Frame_decoded, av_packet_free Packet_in,
        av_packet_free Packet_out] @ close_output_if_file e #
       [avcodec_free_context Enc_ctx, avcodec_free_context Dec_ctx, avformat_close_input,
        avformat_free_context]) s"
    by (simp add: cleanup_def)
  show ?thesis
    unfolding split
  proof (rule fold_step_after [where Q = "closable e"])
    fix f :: "state \<Rightarrow> state" and s :: state
    assume "f \<in> set [\<lambda>s. if handles s Sws_ctx \<noteq> Null then sws_freeContext s else s,
        av_freep_data0, av_frame_free Frame_converted, av_frame_free Frame_decoded,
        av_packet_free Packet_in, av_packet_free Packet_out]" "closable e s"
    then show "closable e (f s)"
      by (auto simp: closable_free_by_address closable_free_by_value av_freep_data0_def)
        (simp add: closable_def fault_def)
  next
    fix s :: state
    assume "closable e s"
    then show "dead Out_pb (step (close_output_if_file e) s)"
      by (rule closable_dead)
  next
    fix f :: "state \<Rightarrow> state" and s :: state
    assume "f \<in> set [avcodec_free_context Enc_ctx, avcodec_free_context Dec_ctx,
        avformat_close_input, avformat_free_context]" "dead Out_pb s"
    then show "dead Out_pb (f s)"
      by (auto simp: dead_free_by_address dead_free_by_value)
  qed (rule assms)
qed

lemma cleanup_dead_other:
  assumes "r \<noteq> Out_pb"
  shows "dead r (cleanup e s)"
  unfolding cleanup_def
proof (rule fold_step_some)
  fix f :: "state \<Rightarrow> state" and s :: state
  assume "f \<in> set [\<lambda>s. if handles s Sws_ctx \<noteq> Null then sws_freeContext s else s,
      av_freep_data0, av_frame_free Frame_converted, av_frame_free Frame_decoded,
      av_packet_free Packet_in, av_packet_free Packet_out, close_output_if_file e,
      avcodec_free_context Enc_ctx, avcodec_free_context Dec_ctx, avformat_close_input,
      avformat_free_context]" "dead r s"
  then show "dead r (f s)"
    by (auto simp: dead_free_by_address dead_free_by_value dead_close_output
        dead_av_freep_data0)
next
  show "\<exists>g \<in> set [\<lambda>s. if handles s Sws_ctx \<noteq> Null then sws_freeContext s else s,
      av_freep_data0, av_frame_free Frame_converted, av_frame_free Frame_decoded,
      av_packet_free Packet_in, av_packet_free Packet_out, close_output_if_file e,
      avcodec_free_context Enc_ctx, avcodec_free_context Dec_ctx, avformat_close_input,
      avformat_free_context]. \<forall>s. dead r (g s)"
    using assms
    by (cases r)
      (simp_all add: dead_free_by_address_self dead_free_by_value_self
        dead_av_freep_data0_self dead_guarded_sws_self)
next
  fix s :: state
  assume "faulted s"
  then show "dead r s"
    by (simp add: dead_def)
qed

lemma cleanup_dead: "closable e s \<Longrightarrow> dead r (cleanup e s)"
  by (cases "r = Out_pb") (simp_all add: cleanup_dead_pb cleanup_dead_other)

subsection \<open>The allocations after the header write\<close>

lemma frame_converter_cases [case_names sws_failed null_frame image_failed loop]:
  obtains
    "\<not> sws_allocated (converter e)"
    "frame_converter e s = cleanup e (allocate_frames_and_packets e s)"
  | "sws_allocated (converter e)"
    "handles (allocate_frames_and_packets e s) Frame_converted \<noteq> Live"
    "frame_converter e s = fault (acquire Sws_ctx (allocate_frames_and_packets e s))"
  | "sws_allocated (converter e)"
    "handles (allocate_frames_and_packets e s) Frame_converted = Live"
    "image_alloc_ret (converter e) < 0"
    "frame_converter e s =
       cleanup e ((acquire Sws_ctx (allocate_frames_and_packets e s))
         \<lparr>ret := image_alloc_ret (converter e)\<rparr>)"
  | "sws_allocated (converter e)"
    "handles (allocate_frames_and_packets e s) Frame_converted = Live"
    "\<not> image_alloc_ret (converter e) < 0"
    "frame_converter e s =
       main_conversion e (acquire Image_buf ((acquire Sws_ctx (allocate_frames_and_packets e s))
         \<lparr>ret := image_alloc_ret (converter e)\<rparr>))"
proof -
  have h: "handles (acquire Sws_ctx t) Frame_converted = handles t Frame_converted" for t
    by (simp add: acquire_def emit_def set_handle_def)
  consider (a) "\<not> sws_allocated (converter e)"
    | (b) "sws_allocated (converter e)"
        "handles (allocate_frames_and_packets e s) Frame_converted \<noteq> Live"
    | (c) "sws_allocated (converter e)"
        "handles (allocate_frames_and_packets e s) Frame_converted = Live"
        "image_alloc_ret (converter e) < 0"
    | (d) "sws_allocated (converter e)"
        "handles (allocate_frames_and_packets e s) Frame_converted = Live"
        "\<not> image_alloc_ret (converter e) < 0"
    by argo
  then show thesis
  proof cases
    case a
    then show thesis by (intro that(1)) (simp_all add: frame_converter_def Let_def)
  next
    case b
    then show thesis by (intro that(2)) (simp_all add: frame_converter_def Let_def h)
  next
    case c
    then show thesis by (intro that(3)) (simp_all add: frame_converter_def Let_def h)
  next
    case d
    then show thesis by (intro that(4)) (simp_all add: frame_converter_def Let_def h)
  qed
qed

lemma handles_allocate:
  "handles (allocate r ok s) = (handles s)(r := if ok then Live else handles s r)"
  by (simp add: allocate_def acquire_def emit_def set_handle_def)

lemma faulted_allocate: "faulted (allocate r ok s) = faulted s"
  by (simp add: allocate_def acquire_def emit_def set_handle_def)

lemma handles_acquire: "handles (acquire r s) = (handles s)(r := Live)"
  by (simp add: acquire_def emit_def set_handle_def)

lemma faulted_acquire: "faulted (acquire r s) = faulted s"
  by (simp add: acquire_def emit_def set_handle_def)

lemma handles_allocations:
  "handles (allocate_frames_and_packets e s) =
     (handles s)
       (Frame_decoded := if frame_decoded_allocated (converter e) then Live
                         else handles s Frame_decoded,
        Frame_converted := if frame_converted_allocated (converter e) then Live
                           else handles s Frame_converted,
        Packet_in := if packet_in_allocated (converter e) then Live else handles s Packet_in,
        Packet_out := if packet_out_allocated (converter e) then Live
                      else handles s Packet_out)"
  by (simp add: allocate_frames_and_packets_def Let_def handles_allocate)

lemma faulted_allocations: "faulted (allocate_frames_and_packets e s) = faulted s"
  by (simp add: allocate_frames_and_packets_def Let_def faulted_allocate)

lemma count_acquire_allocations:
  "count_list (trace (allocate_frames_and_packets e s)) (Acquire r) =
     count_list (trace s) (Acquire r)
     + (if r = Frame_decoded \<and> frame_decoded_allocated (converter e) then 1 else 0)
     + (if r = Frame_converted \<and> frame_converted_allocated (converter e) then 1 else 0)
     + (if r = Packet_in \<and> packet_in_allocated (converter e) then 1 else 0)
     + (if r = Packet_out \<and> packet_out_allocated (converter e) then 1 else 0)"
  by (simp add: allocate_frames_and_packets_def Let_def count_acquire_allocate)

lemma ledger_allocations:
  assumes "ledger s"
    and "count_list (trace s) (Acquire Frame_decoded) = 0"
    and "count_list (trace s) (Acquire Frame_converted) = 0"
    and "count_list (trace s) (Acquire Packet_in) = 0"
    and "count_list (trace s) (Acquire Packet_out) = 0"
  shows "ledger (allocate_frames_and_packets e s)"
  using assms
  by (simp add: allocate_frames_and_packets_def Let_def ledger_allocate count_acquire_allocate)

lemma frame_converter_ledger:
  assumes "ledger s"
    and "count_list (trace s) (Acquire Frame_decoded) = 0"
    and "count_list (trace s) (Acquire Frame_converted) = 0"
    and "count_list (trace s) (Acquire Packet_in) = 0"
    and "count_list (trace s) (Acquire Packet_out) = 0"
    and "count_list (trace s) (Acquire Sws_ctx) = 0"
    and "count_list (trace s) (Acquire Image_buf) = 0"
  shows "ledger (frame_converter e s)"
proof -
  have s4: "ledger (allocate_frames_and_packets e s)"
    using assms(1-5) by (rule ledger_allocations)
  have s5: "ledger (acquire Sws_ctx (allocate_frames_and_packets e s))"
    using s4 by (rule ledger_acquire) (simp add: count_acquire_allocations assms)
  have s5r: "ledger ((acquire Sws_ctx (allocate_frames_and_packets e s))
         \<lparr>ret := image_alloc_ret (converter e)\<rparr>)"
    using s5 by (rule ledger_ret)
  have "count_list (trace ((acquire Sws_ctx (allocate_frames_and_packets e s))
         \<lparr>ret := image_alloc_ret (converter e)\<rparr>)) (Acquire Image_buf) = 0"
    by (simp add: count_acquire_acquire count_acquire_allocations assms)
  with s5r have s6: "ledger (acquire Image_buf ((acquire Sws_ctx (allocate_frames_and_packets e s))
         \<lparr>ret := image_alloc_ret (converter e)\<rparr>))"
    by (rule ledger_acquire)
  show ?thesis
    by (cases e s rule: frame_converter_cases)
      (simp_all add: s4 s5 s6 ledger_cleanup ledger_fault ledger_ret main_conversion_ledger)
qed

lemma closable_allocations: "closable e s \<Longrightarrow> closable e (allocate_frames_and_packets e s)"
  by (simp add: closable_def handles_allocations faulted_allocations)

lemma closable_acquire:
  "closable e s \<Longrightarrow> r \<noteq> Out_pb \<Longrightarrow> r \<noteq> Out_fmt_ctx \<Longrightarrow> closable e (acquire r s)"
  by (simp add: closable_def handles_acquire faulted_acquire)

lemma closable_emit: "closable e s \<Longrightarrow> closable e (emit ev s)"
  by (simp add: closable_def emit_def)

lemma closable_ret: "closable e s \<Longrightarrow> closable e (s\<lparr>ret := x\<rparr>)"
  by (simp add: closable_def)

lemma closable_fc:
  "closable e s \<Longrightarrow> closable e (s\<lparr>fc_pts := a\<rparr>)"
  "closable e s \<Longrightarrow> closable e (s\<lparr>fc_width := b\<rparr>)"
  "closable e s \<Longrightarrow> closable e (s\<lparr>fc_height := b\<rparr>)"
  "closable e s \<Longrightarrow> closable e (s\<lparr>fc_format := c\<rparr>)"
  by (simp_all add: closable_def)

lemma closable_loop_frame: "loop_frame s s' \<Longrightarrow> closable e s \<Longrightarrow> closable e s'"
  by (auto simp: closable_def loop_frame_def)

lemma main_conversion_dead:
  assumes "closable e s"
  shows "dead r (main_conversion e s)"
proof -
  define s4 where "s4 = emit (Assign Fc_pts)
     (emit (Assign Fc_format) (emit (Assign Fc_height) (emit (Assign Fc_width) (s\<lparr>fc_width := enc_width s\<rparr>)
        \<lparr>fc_height := enc_height s\<rparr>)\<lparr>fc_format := enc_pix_fmt s\<rparr>)\<lparr>fc_pts := 0\<rparr>)"
  obtain fl s5 where tl: "transcode_loop e (packets e) s4 = (fl, s5)"
    by (cases "transcode_loop e (packets e) s4")
  have "closable e s4"
    by (simp add: s4_def assms closable_emit closable_fc)
  moreover have "loop_frame s4 s5"
    using transcode_loop_frame [OF loop_frame_refl, of s4 e "packets e"] tl by simp
  ultimately have s5: "closable e s5"
    by (blast intro: closable_loop_frame)
  have eq: "main_conversion e s =
      (case fl of Goto_cleanup \<Rightarrow> cleanup e s5 | Falls \<Rightarrow> cleanup e (emit Write_trailer s5))"
    using tl by (simp add: main_conversion_def Let_def s4_def emit_def)
  show ?thesis
    unfolding eq using s5 by (cases fl) (simp_all add: cleanup_dead closable_emit)
qed

lemma frame_converter_dead:
  assumes "closable e s"
  shows "dead r (frame_converter e s)"
proof -
  have s4: "closable e (allocate_frames_and_packets e s)"
    using assms by (rule closable_allocations)
  have s5: "closable e (acquire Sws_ctx (allocate_frames_and_packets e s))"
    by (rule closable_acquire [OF s4]) simp_all
  have s6: "closable e (acquire Image_buf ((acquire Sws_ctx (allocate_frames_and_packets e s))
         \<lparr>ret := image_alloc_ret (converter e)\<rparr>))"
    by (rule closable_acquire [OF closable_ret [OF s5]]) simp_all
  show ?thesis
    by (cases e s rule: frame_converter_cases)
      (simp_all add: s4 s5 s6 cleanup_dead dead_fault closable_ret main_conversion_dead)
qed

subsection \<open>Runs that do not fault\<close>

lemma free_by_address_eq:
  "handles s r \<noteq> Dangling \<Longrightarrow>
   free_by_address r s =
     s\<lparr>handles := (handles s)(r := Null), trace := trace s @ release_events r (handles s r)\<rparr>"
  by (cases "handles s r")
    (simp_all add: free_by_address_def emit_def set_handle_def fun_upd_idem)

lemma free_by_value_eq:
  "handles s r \<noteq> Dangling \<Longrightarrow>
   free_by_value r s =
     s\<lparr>handles := (handles s)(r := (case handles s r of Live \<Rightarrow> Dangling | p \<Rightarrow> p)),
       trace := trace s @ release_events r (handles s r)\<rparr>"
  by (cases "handles s r")
    (simp_all add: free_by_value_def emit_def set_handle_def fun_upd_idem)

lemma guarded_free_by_value:
  "(if handles s r \<noteq> Null then free_by_value r s else s) = free_by_value r s"
  by (simp add: free_by_value_def)

lemma av_freep_data0_eq:
  "handles s Frame_converted = Live \<Longrightarrow> av_freep_data0 s = free_by_address Image_buf s"
  by (simp add: av_freep_data0_def)

lemma close_output_if_file_eq:
  "handles s Out_fmt_ctx \<noteq> Dangling \<Longrightarrow> handles s Out_pb \<noteq> Dangling \<Longrightarrow>
   close_output_if_file e s =
     s\<lparr>handles := (handles s)(Out_pb :=
            if handles s Out_fmt_ctx = Live \<and> \<not> nofile (sink e) then Null else handles s Out_pb),
       trace := trace s @
         (if handles s Out_fmt_ctx = Live \<and> \<not> nofile (sink e)
          then release_events Out_pb (handles s Out_pb) else [])\<rparr>"
  by (cases "handles s Out_fmt_ctx")
    (simp_all add: close_output_if_file_def free_by_address_eq)

lemma cleanup_releases:
  assumes "\<not> faulted s" and "handles s Frame_converted = Live"
    and "\<And>r. handles s r \<noteq> Dangling"
  shows "trace (cleanup e s) =
     trace s @ release_events Sws_ctx (handles s Sws_ctx)
       @ release_events Image_buf (handles s Image_buf)
       @ [Release Frame_converted]
       @ release_events Frame_decoded (handles s Frame_decoded)
       @ release_events Packet_in (handles s Packet_in)
       @ release_events Packet_out (handles s Packet_out)
       @ (if handles s Out_fmt_ctx = Live \<and> \<not> nofile (sink e)
          then release_events Out_pb (handles s Out_pb) else [])
       @ release_events Enc_ctx (handles s Enc_ctx)
       @ release_events Dec_ctx (handles s Dec_ctx)
       @ release_events In_fmt_ctx (handles s In_fmt_ctx)
       @ release_events Out_fmt_ctx (handles s Out_fmt_ctx)"
    and "\<not> faulted (cleanup e s)"
  using assms
  by (simp_all add: cleanup_def step_ok guarded_free_by_value av_freep_data0_eq
      close_output_if_file_eq free_by_address_eq free_by_value_eq
      split del: if_split cong: if_cong)

lemma encode_drain_no_fault:
  "\<not> faulted s \<Longrightarrow> handles s Packet_out = Live \<Longrightarrow> \<not> faulted (snd (encode_drain e as s))"
  by (induction as arbitrary: s) (simp_all add: Let_def emit_def)

lemma decode_drain_no_fault:
  assumes "\<not> faulted s" "handles s Frame_decoded = Live" "handles s Packet_out = Live"
  shows "\<not> faulted (snd (decode_drain e as s))"
  using assms
proof (induction as arbitrary: s)
  case Nil
  then show ?case by (simp add: emit_def)
next
  case (Cons a as)
  define s4 where "s4 = emit (Send_frame (send_frame_ret a))
     (emit (Assign Fc_pts) (emit Sws_scale (emit (Receive_frame (receive_frame_ret a))
        (s\<lparr>ret := receive_frame_ret a\<rparr>))\<lparr>fc_pts := frame_pts a\<rparr>)\<lparr>ret := send_frame_ret a\<rparr>)"
  obtain fl s5 where ed: "encode_drain e (enc_answers a) s4 = (fl, s5)"
    by (cases "encode_drain e (enc_answers a) s4")
  have s4: "\<not> faulted s4" "handles s4 = handles s"
    using Cons.prems by (simp_all add: s4_def emit_def)
  have "loop_frame s4 s5"
    using encode_drain_frame [OF loop_frame_refl, of s4 e "enc_answers a"] ed by simp
  then have h5: "handles s5 = handles s"
    using s4 by (simp add: loop_frame_def)
  have f5: "\<not> faulted s5"
    using encode_drain_no_fault [of s4 e "enc_answers a"] s4 Cons.prems ed by simp
  then have "\<not> faulted (snd (decode_drain e as (emit (Unref Frame_decoded) s5)))"
    using h5 Cons.prems by (intro Cons.IH) (simp_all add: emit_def)
  with s4 f5 show ?case
    using ed Cons.prems
    by (simp add: Let_def s4_def [symmetric] split: flow.splits) (simp add: emit_def)
qed

lemma transcode_loop_no_fault:
  assumes "\<not> faulted s" "handles s Packet_in = Live" "handles s Frame_decoded = Live"
    "handles s Packet_out = Live"
  shows "\<not> faulted (snd (transcode_loop e ps s))"
  using assms
proof (induction ps arbitrary: s)
  case Nil
  then show ?case by (simp add: emit_def)
next
  case (Cons p ps)
  define s2 where "s2 = emit (Send_packet (send_packet_ret p)) (emit (Read_frame 0) s\<lparr>ret := send_packet_ret p\<rparr>)"
  obtain fl s3 where dd: "decode_drain e (dec_answers p) s2 = (fl, s3)"
    by (cases "decode_drain e (dec_answers p) s2")
  have s2: "\<not> faulted s2" "handles s2 = handles s"
    using Cons.prems by (simp_all add: s2_def emit_def)
  have "loop_frame s2 s3"
    using decode_drain_frame [OF loop_frame_refl, of s2 e "dec_answers p"] dd by simp
  then have h3: "handles s3 = handles s"
    using s2 by (simp add: loop_frame_def)
  have f3: "\<not> faulted s3"
    using decode_drain_no_fault [of s2 e "dec_answers p"] s2 Cons.prems dd by simp
  then have a: "\<not> faulted (snd (transcode_loop e ps (emit (Unref Packet_in) s3)))"
    using h3 Cons.prems by (intro Cons.IH) (simp_all add: emit_def)
  have b: "\<not> faulted (snd (transcode_loop e ps (emit (Unref Packet_in) (emit (Read_frame 0) s))))"
    using Cons.prems by (intro Cons.IH) (simp_all add: emit_def)
  from s2 f3 a b show ?case
    using dd Cons.prems
    by (simp add: Let_def s2_def [symmetric] split: flow.splits)
qed

lemma main_conversion_no_fault:
  assumes "\<not> faulted s" "\<And>r. handles s r \<noteq> Dangling"
    "handles s Frame_converted = Live" "handles s Packet_in = Live"
    "handles s Frame_decoded = Live" "handles s Packet_out = Live"
  shows "\<not> faulted (main_conversion e s)"
proof -
  define s4 where "s4 = emit (Assign Fc_pts)
     (emit (Assign Fc_format) (emit (Assign Fc_height) (emit (Assign Fc_width) (s\<lparr>fc_width := enc_width s\<rparr>)
        \<lparr>fc_height := enc_height s\<rparr>)\<lparr>fc_format := enc_pix_fmt s\<rparr>)\<lparr>fc_pts := 0\<rparr>)"
  obtain fl s5 where tl: "transcode_loop e (packets e) s4 = (fl, s5)"
    by (cases "transcode_loop e (packets e) s4")
  have s4: "\<not> faulted s4" "handles s4 = handles s"
    using assms(1) by (simp_all add: s4_def emit_def)
  have "loop_frame s4 s5"
    using transcode_loop_frame [OF loop_frame_refl, of s4 e "packets e"] tl by simp
  then have h5: "handles s5 = handles s"
    using s4 by (simp add: loop_frame_def)
  have f5: "\<not> faulted s5"
    using transcode_loop_no_fault [of s4 e "packets e"] s4 assms tl by simp
  have eq: "main_conversion e s =
      (case fl of Goto_cleanup \<Rightarrow> cleanup e s5 | Falls \<Rightarrow> cleanup e (emit Write_trailer s5))"
    using tl by (simp add: main_conversion_def Let_def s4_def emit_def)
  show ?thesis
    unfolding eq using f5 h5 assms(2,3)
    by (cases fl) (simp_all add: cleanup_releases(2) emit_def)
qed

lemma frame_converter_no_fault:
  assumes "\<not> faulted s" "\<And>r. handles s r \<noteq> Dangling"
    and "frame_converted_allocated (converter e)"
    and "\<not> sws_allocated (converter e) \<or> image_alloc_ret (converter e) < 0
      \<or> frame_decoded_allocated (converter e) \<and> packet_in_allocated (converter e)
        \<and> packet_out_allocated (converter e)"
  shows "\<not> faulted (frame_converter e s)"
proof (cases e s rule: frame_converter_cases)
  case sws_failed
  show ?thesis
    unfolding sws_failed(2)
    by (rule cleanup_releases(2))
      (simp_all add: faulted_allocations handles_allocations assms)
next
  case null_frame
  with assms(3) show ?thesis
    by (simp add: handles_allocations)
next
  case image_failed
  show ?thesis
    unfolding image_failed(4)
    by (rule cleanup_releases(2))
      (simp_all add: faulted_allocations handles_allocations faulted_acquire handles_acquire
        assms)
next
  case loop
  with assms(4) have all: "frame_decoded_allocated (converter e)"
    "packet_in_allocated (converter e)" "packet_out_allocated (converter e)"
    by simp_all
  show ?thesis
    unfolding loop(4)
    by (rule main_conversion_no_fault)
      (simp_all add: faulted_allocations handles_allocations faulted_acquire handles_acquire
        assms all)
qed

lemma account_balanced:
  "account r s \<Longrightarrow> dead r s \<Longrightarrow> \<not> faulted s \<Longrightarrow>
   count_list (trace s) (Acquire r) \<le> 1
   \<and> count_list (trace s) (Release r) = count_list (trace s) (Acquire r)"
  by (simp add: account_def dead_def)

subsection \<open>Evaluating a run\<close>

lemmas run_defs = convert_video_to_h265_def sink_builder_def set_encoder_parameters_def
  frame_converter_def allocate_frames_and_packets_def main_conversion_def Let_def

lemmas env_defs = scenario_def good_source_def good_sink_def good_converter_def

lemmas state_defs = allocate_def acquire_def emit_def set_handle_def fault_def init_state_def
  av_inv_q_def av_rescale_q_def round_div_def step_ok step_faulted free_by_address_def
  free_by_value_def

lemmas cleanup_defs = cleanup_def av_freep_data0_def close_output_if_file_def

lemma scenario_nil_trace:
  "trace (convert_video_to_h265 (scenario [])) =
     [Acquire In_fmt_ctx, Acquire Dec_ctx, Acquire Out_fmt_ctx, Acquire Enc_ctx,
      Assign Enc_height, Assign Enc_width, Assign Enc_sample_aspect_ratio,
      Assign Enc_pix_fmt, Assign Enc_time_base, Open_encoder 0,
      Params_from_context 0, Assign Out_time_base, Acquire Out_pb,
      Write_header 0, Acquire Frame_decoded, Acquire Frame_converted,
      Acquire Packet_in, Acquire Packet_out, Acquire Sws_ctx, Acquire Image_buf,
      Assign Fc_width, Assign Fc_height, Assign Fc_format, Assign Fc_pts,
      Read_frame (- 1), Write_trailer,
      Release Sws_ctx, Release Image_buf, Release Frame_converted,
      Release Frame_decoded, Release Packet_in, Release Packet_out,
      Release Out_pb, Release Enc_ctx, Release Dec_ctx, Release In_fmt_ctx,
      Release Out_fmt_ctx]"
  unfolding run_defs
  by (simp add: env_defs state_defs) (simp add: cleanup_defs state_defs)

lemma scenario_two_packets_run:
  "trace (convert_video_to_h265 (scenario two_packets)) =
     [Acquire In_fmt_ctx, Acquire Dec_ctx, Acquire Out_fmt_ctx, Acquire Enc_ctx,
      Assign Enc_height, Assign Enc_width, Assign Enc_sample_aspect_ratio,
      Assign Enc_pix_fmt, Assign Enc_time_base, Open_encoder 0,
      Params_from_context 0, Assign Out_time_base, Acquire Out_pb,
      Write_header 0, Acquire Frame_decoded, Acquire Frame_converted,
      Acquire Packet_in, Acquire Packet_out, Acquire Sws_ctx, Acquire Image_buf,
      Assign Fc_width, Assign Fc_height, Assign Fc_format, Assign Fc_pts,
      Read_frame 0, Send_packet 0, Receive_frame 0, Sws_scale, Assign Fc_pts,
      Send_frame 0, Receive_packet 0, Rescale_ts 0 0, Assign Pkt_stream_index,
      Write_frame 0 0, Unref Packet_out, Receive_packet 0, Rescale_ts 1 512,
      Assign Pkt_stream_index, Write_frame 512 0, Unref Packet_out,
      Receive_packet (- 11), Unref Frame_decoded, Unref Packet_in,
      Read_frame (- 1), Write_trailer, Release Sws_ctx, Release Image_buf,
      Release Frame_converted, Release Frame_decoded, Release Packet_in,
      Release Packet_out, Release Out_pb, Release Enc_ctx, Release Dec_ctx,
      Release In_fmt_ctx, Release Out_fmt_ctx]"
  "enc_time_base (convert_video_to_h265 (scenario two_packets)) = \<lparr>num = 1, den = 30\<rparr>"
  "out_time_base (convert_video_to_h265 (scenario two_packets)) = \<lparr>num = 1, den = 15360\<rparr>"
  unfolding run_defs
  by (simp_all add: env_defs state_defs two_packets_def) (simp_all add: cleanup_defs state_defs)

lemma null_handles_trace:
  "trace (convert_video_to_h265 null_handles) =
     [Acquire In_fmt_ctx, Acquire Dec_ctx, Acquire Out_fmt_ctx, Acquire Enc_ctx,
      Assign Enc_height, Assign Enc_width, Assign Enc_sample_aspect_ratio,
      Assign Enc_pix_fmt, Assign Enc_time_base, Open_encoder 0,
      Params_from_context 0, Assign Out_time_base, Acquire Out_pb,
      Write_header 0, Acquire Frame_converted, Release Frame_converted,
      Release Out_pb, Release Enc_ctx, Release Dec_ctx, Release In_fmt_ctx,
      Release Out_fmt_ctx]"
  unfolding run_defs
  by (simp add: env_defs state_defs null_handles_def) (simp add: cleanup_defs state_defs)

text \<open>
  With a null \<^verbatim>\<open>frame_converted\<close> Teardown dereferences it (line 244), whatever the other
  handles are.
\<close>

lemma null_converted_frame_faults: "faulted (convert_video_to_h265 null_converted_frame)"
  unfolding run_defs
  by (simp add: env_defs state_defs null_converted_frame_def) (simp add: cleanup_defs state_defs)

section \<open>Properties of the set-up\<close>

text \<open>
  C7. Once the encoder context is configured, its time base is the inverse of the
  decoder's frame rate when the numerator of that frame rate is not zero, and the inverse
  of the input stream's stated frame rate otherwise; nothing later in the function changes it.
\<close>

theorem encoder_time_base_is_inverse_frame_rate:
  assumes "Assign Enc_time_base \<in> set (trace (convert_video_to_h265 e))"
  shows "enc_time_base (convert_video_to_h265 e) =
     (if num (dec_framerate (source e)) \<noteq> 0
      then \<lparr>num = den (dec_framerate (source e)), den = num (dec_framerate (source e))\<rparr>
      else \<lparr>num = den (r_frame_rate (source e)), den = num (r_frame_rate (source e))\<rparr>)"
proof (cases e rule: convert_video_to_h265_cases)
  case (converter S)
  then show ?thesis
    by (simp add: frame_converter_enc_time_base av_inv_q_def)
qed (use assms in \<open>simp_all add: init_state_def av_inv_q_def\<close>)

theorem encoder_time_base_is_inverse_frame_rate_witness:
  "Assign Enc_time_base \<in> set (trace (convert_video_to_h265 (scenario [])))
   \<and> enc_time_base (convert_video_to_h265 (scenario [])) = \<lparr>num = 1, den = 30\<rparr>"
proof -
  have h: "Assign Enc_time_base \<in> set (trace (convert_video_to_h265 (scenario [])))"
    by (simp add: scenario_nil_trace)
  from encoder_time_base_is_inverse_frame_rate [OF h] h show ?thesis
    by (simp add: scenario_def good_source_def)
qed

text \<open>
  C9. The container trailer is written only after the container header has been written
  successfully: a run whose trace holds the trailer write holds, before it, a header write
  that returned a value that is not negative. A run on which the header write fails or is
  never reached therefore returns without a trailer write.
\<close>

theorem trailer_only_after_header:
  assumes "Write_trailer \<in> set (trace (convert_video_to_h265 e))"
  shows "\<exists>pre post r. trace (convert_video_to_h265 e) = pre @ Write_header r # post
           \<and> 0 \<le> r \<and> Write_trailer \<notin> set pre \<and> Write_trailer \<in> set post"
proof (cases e rule: convert_video_to_h265_cases)
  case (converter S)
  obtain t where t: "trace (frame_converter e S) = trace S @ t"
    by (rule frame_converter_trace)
  let ?pre = "[Acquire In_fmt_ctx, Acquire Dec_ctx, Acquire Out_fmt_ctx, Acquire Enc_ctx,
        Assign Enc_height, Assign Enc_width, Assign Enc_sample_aspect_ratio,
        Assign Enc_pix_fmt, Assign Enc_time_base, Open_encoder (enc_open_ret (sink e)),
        Params_from_context (params_from_context_ret (sink e)), Assign Out_time_base]
       @ (if nofile (sink e) then [] else [Acquire Out_pb])"
  have a: "trace (convert_video_to_h265 e) = ?pre @ Write_header (write_header_ret (sink e)) # t"
    using converter t by simp
  have b: "Write_trailer \<notin> set ?pre"
    by simp
  have c: "Write_trailer \<in> set t"
    using assms converter t by (simp split: if_splits)
  show ?thesis
    apply (rule exI [of _ ?pre])
    apply (rule exI [of _ t])
    apply (rule exI [of _ "write_header_ret (sink e)"])
    using a b c converter(4) apply simp
    done
qed (use assms in \<open>simp_all add: init_state_def split: if_splits\<close>)

theorem trailer_only_after_header_witness:
  "Write_trailer \<in> set (trace (convert_video_to_h265 (scenario [])))
   \<and> (\<exists>pre post r. trace (convert_video_to_h265 (scenario [])) = pre @ Write_header r # post
         \<and> 0 \<le> r \<and> Write_trailer \<notin> set pre \<and> Write_trailer \<in> set post)"
proof -
  have h: "Write_trailer \<in> set (trace (convert_video_to_h265 (scenario [])))"
    by (simp add: scenario_nil_trace)
  from h trailer_only_after_header [OF h] show ?thesis
    by (rule conjI)
qed
text \<open>
  C4, amended. In every run the time base of the output stream is assigned at most once.
  It is assigned exactly once when the encoder has been opened and its parameters have
  been copied into the output stream, both with success, and not at all otherwise; the
  assignment always comes after a successful open of the encoder.
\<close>

theorem out_time_base_assigned_after_encoder_open:
  "count_list (trace (convert_video_to_h265 e)) (Assign Out_time_base) \<le> 1
   \<and> (count_list (trace (convert_video_to_h265 e)) (Assign Out_time_base) = 1 \<longleftrightarrow>
        (\<exists>r p. 0 \<le> r \<and> 0 \<le> p \<and> Open_encoder r \<in> set (trace (convert_video_to_h265 e))
           \<and> Params_from_context p \<in> set (trace (convert_video_to_h265 e))))
   \<and> (Assign Out_time_base \<in> set (trace (convert_video_to_h265 e)) \<longrightarrow>
        (\<exists>pre post r. trace (convert_video_to_h265 e) = pre @ Assign Out_time_base # post
           \<and> 0 \<le> r \<and> Open_encoder r \<in> set pre))"
proof (cases e rule: convert_video_to_h265_cases)
  case open_failed
  then show ?thesis by (simp add: init_state_def)
next
  case source_failed
  then show ?thesis by simp
next
  case decoder_failed
  then show ?thesis by simp
next
  case encoder_missing
  then show ?thesis by simp
next
  case encoder_open_failed
  then show ?thesis by simp
next
  case params_failed
  then show ?thesis by simp
next
  case avio_failed
  let ?pre = "[Acquire In_fmt_ctx, Acquire Dec_ctx, Acquire Out_fmt_ctx, Acquire Enc_ctx,
        Assign Enc_height, Assign Enc_width, Assign Enc_sample_aspect_ratio,
        Assign Enc_pix_fmt, Assign Enc_time_base, Open_encoder (enc_open_ret (sink e)),
        Params_from_context (params_from_context_ret (sink e))]"
  have "trace (convert_video_to_h265 e) = ?pre @ Assign Out_time_base #
      [Release Enc_ctx, Release Out_fmt_ctx, Release Dec_ctx, Release In_fmt_ctx]"
    using avio_failed by simp
  moreover have "Open_encoder (enc_open_ret (sink e)) \<in> set ?pre"
    by simp
  ultimately have "\<exists>pre post r. trace (convert_video_to_h265 e) = pre @ Assign Out_time_base # post
           \<and> 0 \<le> r \<and> Open_encoder r \<in> set pre"
    using avio_failed(1) by (intro exI conjI)
  moreover have "count_list (trace (convert_video_to_h265 e)) (Assign Out_time_base) = 1"
    using avio_failed by simp
  moreover have "\<exists>r p. 0 \<le> r \<and> 0 \<le> p \<and> Open_encoder r \<in> set (trace (convert_video_to_h265 e))
           \<and> Params_from_context p \<in> set (trace (convert_video_to_h265 e))"
    using avio_failed by (intro exI [of _ "enc_open_ret (sink e)"] exI [of _ "params_from_context_ret (sink e)"]) simp
  ultimately show ?thesis by simp
next
  case header_failed
  let ?pre = "[Acquire In_fmt_ctx, Acquire Dec_ctx, Acquire Out_fmt_ctx, Acquire Enc_ctx,
        Assign Enc_height, Assign Enc_width, Assign Enc_sample_aspect_ratio,
        Assign Enc_pix_fmt, Assign Enc_time_base, Open_encoder (enc_open_ret (sink e)),
        Params_from_context (params_from_context_ret (sink e))]"
  let ?post = "(if nofile (sink e) then [Write_header (write_header_ret (sink e))]
          else [Acquire Out_pb, Write_header (write_header_ret (sink e)), Release Out_pb])
       @ [Release Enc_ctx, Release Out_fmt_ctx, Release Dec_ctx, Release In_fmt_ctx]"
  have "trace (convert_video_to_h265 e) = ?pre @ Assign Out_time_base # ?post"
    using header_failed by simp
  moreover have "Open_encoder (enc_open_ret (sink e)) \<in> set ?pre"
    by simp
  ultimately have "\<exists>pre post r. trace (convert_video_to_h265 e) = pre @ Assign Out_time_base # post
           \<and> 0 \<le> r \<and> Open_encoder r \<in> set pre"
    using header_failed(1) by (intro exI conjI)
  moreover have "count_list (trace (convert_video_to_h265 e)) (Assign Out_time_base) = 1"
    using header_failed by simp
  moreover have "\<exists>r p. 0 \<le> r \<and> 0 \<le> p \<and> Open_encoder r \<in> set (trace (convert_video_to_h265 e))
           \<and> Params_from_context p \<in> set (trace (convert_video_to_h265 e))"
    using header_failed by (intro exI [of _ "enc_open_ret (sink e)"] exI [of _ "params_from_context_ret (sink e)"]) simp
  ultimately show ?thesis by simp
next
  case (converter S)
  obtain t where t: "trace (frame_converter e S) = trace S @ t" "list_all late_event t"
    by (rule frame_converter_trace)
  let ?pre = "[Acquire In_fmt_ctx, Acquire Dec_ctx, Acquire Out_fmt_ctx, Acquire Enc_ctx,
        Assign Enc_height, Assign Enc_width, Assign Enc_sample_aspect_ratio,
        Assign Enc_pix_fmt, Assign Enc_time_base, Open_encoder (enc_open_ret (sink e)),
        Params_from_context (params_from_context_ret (sink e))]"
  let ?post = "(if nofile (sink e) then [] else [Acquire Out_pb])
       @ [Write_header (write_header_ret (sink e))] @ t"
  have "trace (convert_video_to_h265 e) = ?pre @ Assign Out_time_base # ?post"
    using converter t by simp
  moreover have "Open_encoder (enc_open_ret (sink e)) \<in> set ?pre"
    by simp
  ultimately have "\<exists>pre post r. trace (convert_video_to_h265 e) = pre @ Assign Out_time_base # post
           \<and> 0 \<le> r \<and> Open_encoder r \<in> set pre"
    using converter(2) by (intro exI conjI)
  moreover have "count_list t (Assign Out_time_base) = 0"
    using t(2) by (rule list_all_count_0) simp
  then have "count_list (trace (convert_video_to_h265 e)) (Assign Out_time_base) = 1"
    using converter t by simp
  moreover have "\<exists>r p. 0 \<le> r \<and> 0 \<le> p \<and> Open_encoder r \<in> set (trace (convert_video_to_h265 e))
           \<and> Params_from_context p \<in> set (trace (convert_video_to_h265 e))"
    using converter t by (intro exI [of _ "enc_open_ret (sink e)"] exI [of _ "params_from_context_ret (sink e)"]) simp
  ultimately show ?thesis by simp
qed

theorem out_time_base_assigned_after_encoder_open_witness:
  "Assign Out_time_base \<in> set (trace (convert_video_to_h265 (scenario [])))
   \<and> (\<exists>pre post r. trace (convert_video_to_h265 (scenario [])) = pre @ Assign Out_time_base # post
         \<and> 0 \<le> r \<and> Open_encoder r \<in> set pre)"
proof -
  have h: "Assign Out_time_base \<in> set (trace (convert_video_to_h265 (scenario [])))"
    by (simp add: scenario_nil_trace)
  note inst = out_time_base_assigned_after_encoder_open [of "scenario []"]
  from h inst [THEN conjunct2, THEN conjunct2, THEN mp, OF h] show ?thesis
    by (rule conjI)
qed

text \<open>
  The claim as stated fails on a run in which the encoder is opened and the copy of its
  parameters into the output stream then fails: the time base is never assigned.
\<close>

theorem out_time_base_unassigned_when_parameter_copy_fails:
  "Open_encoder 0 \<in> set (trace (convert_video_to_h265 copy_failure))
   \<and> count_list (trace (convert_video_to_h265 copy_failure)) (Assign Out_time_base) = 0"
  unfolding run_defs
  by (simp add: copy_failure_def env_defs state_defs)
text \<open>
  C10. On every run that reads from the input, the width, the height and the pixel format
  of the converted frame are each assigned exactly once, together with a first pts,
  before the first read of the transcode loop, and they hold the encoder's width, height
  and pixel format when the function returns. The loop, from any state and on any input,
  leaves the three fields as they are; the only fields it assigns are the pts of the
  converted frame and the stream index of the output packet.
\<close>

theorem converted_frame_geometry_set_once:
  assumes "Read_frame r \<in> set (trace (convert_video_to_h265 e))"
  shows "(\<exists>pre post. trace (convert_video_to_h265 e) =
             pre @ [Assign Fc_width, Assign Fc_height, Assign Fc_format, Assign Fc_pts] @ post
           \<and> Assign Fc_width \<notin> set pre \<and> Assign Fc_height \<notin> set pre
           \<and> Assign Fc_format \<notin> set pre \<and> (\<forall>r'. Read_frame r' \<notin> set pre)
           \<and> Assign Fc_width \<notin> set post \<and> Assign Fc_height \<notin> set post
           \<and> Assign Fc_format \<notin> set post)
         \<and> fc_width (convert_video_to_h265 e) = enc_width (convert_video_to_h265 e)
         \<and> fc_height (convert_video_to_h265 e) = enc_height (convert_video_to_h265 e)
         \<and> fc_format (convert_video_to_h265 e) = enc_pix_fmt (convert_video_to_h265 e)
         \<and> fc_width (snd (transcode_loop e' ps s)) = fc_width s
         \<and> fc_height (snd (transcode_loop e' ps s)) = fc_height s
         \<and> fc_format (snd (transcode_loop e' ps s)) = fc_format s"
proof -
  have loop: "fc_width (snd (transcode_loop e' ps s)) = fc_width s
         \<and> fc_height (snd (transcode_loop e' ps s)) = fc_height s
         \<and> fc_format (snd (transcode_loop e' ps s)) = fc_format s"
    using transcode_loop_frame [OF loop_frame_refl, of s e' ps] by (simp add: loop_frame_def)
  have run: "(\<exists>pre post. trace (convert_video_to_h265 e) =
             pre @ [Assign Fc_width, Assign Fc_height, Assign Fc_format, Assign Fc_pts] @ post
           \<and> Assign Fc_width \<notin> set pre \<and> Assign Fc_height \<notin> set pre
           \<and> Assign Fc_format \<notin> set pre \<and> (\<forall>r'. Read_frame r' \<notin> set pre)
           \<and> Assign Fc_width \<notin> set post \<and> Assign Fc_height \<notin> set post
           \<and> Assign Fc_format \<notin> set post)
         \<and> fc_width (convert_video_to_h265 e) = enc_width (convert_video_to_h265 e)
         \<and> fc_height (convert_video_to_h265 e) = enc_height (convert_video_to_h265 e)
         \<and> fc_format (convert_video_to_h265 e) = enc_pix_fmt (convert_video_to_h265 e)"
  proof (cases e rule: convert_video_to_h265_cases)
    case (converter S)
    have pre: "Assign Fc_width \<notin> set (trace S)" "Assign Fc_height \<notin> set (trace S)"
      "Assign Fc_format \<notin> set (trace S)" "\<And>r'. Read_frame r' \<notin> set (trace S)"
      using converter(5) by simp_all
    show ?thesis
    proof (cases e S rule: frame_converter_shape)
      case (no_loop t)
      then have "Read_frame r \<notin> set t"
        by (simp add: list_all_not_mem)
      with no_loop pre assms converter(1) show ?thesis
        by simp
    next
      case (loop a t)
      have a: "Assign Fc_width \<notin> set a" "Assign Fc_height \<notin> set a"
        "Assign Fc_format \<notin> set a" "\<And>r'. Read_frame r' \<notin> set a"
        using loop(2) by (simp_all add: list_all_not_mem)
      have t: "Assign Fc_width \<notin> set t" "Assign Fc_height \<notin> set t" "Assign Fc_format \<notin> set t"
        using loop(3) by (simp_all add: list_all_not_mem)
      have "trace (convert_video_to_h265 e) =
          (trace S @ a) @ [Assign Fc_width, Assign Fc_height, Assign Fc_format, Assign Fc_pts] @ t"
        using converter(1) loop(1) by simp
      moreover have "Assign Fc_width \<notin> set (trace S @ a)" "Assign Fc_height \<notin> set (trace S @ a)"
        "Assign Fc_format \<notin> set (trace S @ a)" "\<forall>r'. Read_frame r' \<notin> set (trace S @ a)"
        using pre a by simp_all
      ultimately have ex: "\<exists>pre post. trace (convert_video_to_h265 e) =
             pre @ [Assign Fc_width, Assign Fc_height, Assign Fc_format, Assign Fc_pts] @ post
           \<and> Assign Fc_width \<notin> set pre \<and> Assign Fc_height \<notin> set pre
           \<and> Assign Fc_format \<notin> set pre \<and> (\<forall>r'. Read_frame r' \<notin> set pre)
           \<and> Assign Fc_width \<notin> set post \<and> Assign Fc_height \<notin> set post
           \<and> Assign Fc_format \<notin> set post"
        using t by (intro exI [of _ "trace S @ a"] exI [of _ t] conjI)
      have "fc_width (convert_video_to_h265 e) = enc_width (convert_video_to_h265 e)"
        "fc_height (convert_video_to_h265 e) = enc_height (convert_video_to_h265 e)"
        "fc_format (convert_video_to_h265 e) = enc_pix_fmt (convert_video_to_h265 e)"
        using loop(4-6) converter(1) by (simp_all add: frame_converter_encoder_fields)
      with ex show ?thesis
        by (intro conjI)
    qed
  qed (use assms in \<open>simp_all add: init_state_def split: if_splits\<close>)
  from run loop show ?thesis
    by - (elim conjE, intro conjI; assumption)
qed

theorem converted_frame_geometry_set_once_witness:
  "Read_frame (- 1) \<in> set (trace (convert_video_to_h265 (scenario [])))
   \<and> fc_width (convert_video_to_h265 (scenario [])) =
       enc_width (convert_video_to_h265 (scenario []))"
proof -
  have h: "Read_frame (- 1) \<in> set (trace (convert_video_to_h265 (scenario [])))"
    by (simp add: scenario_nil_trace)
  from h converted_frame_geometry_set_once [OF h, THEN conjunct2, THEN conjunct1]
  show ?thesis
    by (rule conjI)
qed
section \<open>Properties of the transcode loop\<close>

text \<open>
  C8. A packet read from the input whose stream index is not the index of the selected
  video stream is discarded: between the read that delivered it and the next read the
  function only releases the packet's data. It submits nothing to the decoder or the
  encoder and writes nothing, and apart from these two entries of the trace the loop
  goes on from the state it was in.
\<close>

theorem other_stream_packet_discarded:
  assumes "stream_index p \<noteq> best_stream_ret (source e)"
    and "handles s Packet_in = Live"
  shows "(\<exists>rest. trace (snd (transcode_loop e (p # ps) s)) =
            trace s @ Read_frame 0 # Unref Packet_in # Read_frame (if ps = [] then - 1 else 0) # rest)
     \<and> transcode_loop e (p # ps) s =
         transcode_loop e ps (s\<lparr>trace := trace s @ [Read_frame 0, Unref Packet_in]\<rparr>)"
proof -
  let ?s = "s\<lparr>trace := trace s @ [Read_frame 0, Unref Packet_in]\<rparr>"
  have eq: "transcode_loop e (p # ps) s = transcode_loop e ps ?s"
    using assms by (simp add: Let_def emit_def)
  have "handles ?s Packet_in = Live"
    using assms(2) by simp
  from transcode_loop_reads [OF this, of e ps] eq show ?thesis
    by simp
qed

theorem other_stream_packet_discarded_witness:
  "stream_index (Packet 1 0 []) \<noteq> best_stream_ret (source (scenario []))
   \<and> handles (acquire Packet_in init_state) Packet_in = Live
   \<and> (\<exists>rest. trace (snd (transcode_loop (scenario []) [Packet 1 0 [], Packet 0 0 []]
          (acquire Packet_in init_state))) =
        [Acquire Packet_in, Read_frame 0, Unref Packet_in, Read_frame 0] @ rest)"
proof -
  have h1: "stream_index (Packet 1 0 []) \<noteq> best_stream_ret (source (scenario []))"
    by (simp add: scenario_def good_source_def)
  have h2: "handles (acquire Packet_in init_state) Packet_in = Live"
    by (simp add: acquire_def emit_def set_handle_def)
  have t: "trace (acquire Packet_in init_state) = [Acquire Packet_in]"
    by (simp add: acquire_def emit_def set_handle_def init_state_def)
  note inst = other_stream_packet_discarded [OF h1 h2, of "[Packet 0 0 []]", THEN conjunct1]
  have "\<exists>rest. trace (snd (transcode_loop (scenario []) [Packet 1 0 [], Packet 0 0 []]
          (acquire Packet_in init_state))) =
        [Acquire Packet_in, Read_frame 0, Unref Packet_in, Read_frame 0] @ rest"
    using inst unfolding t by simp
  with h1 h2 show ?thesis
    by (intro conjI)
qed

text \<open>
  C6. In every run whose encoder time base and output time base are positive, the pts
  written to the output are the pts of the packets received from the encoder, each
  rescaled from the encoder's time base to the time base of the output stream; when the
  received pts are non-decreasing, so are the rescaled ones.
\<close>

theorem rescaled_pts_non_decreasing:
  assumes "0 < num (enc_time_base (convert_video_to_h265 e))"
    and "0 < den (enc_time_base (convert_video_to_h265 e))"
    and "0 < num (out_time_base (convert_video_to_h265 e))"
    and "0 < den (out_time_base (convert_video_to_h265 e))"
    and "sorted (received_pts (trace (convert_video_to_h265 e)))"
  shows "written_pts (trace (convert_video_to_h265 e)) =
           map (\<lambda>a. av_rescale_q a (enc_time_base (convert_video_to_h265 e))
                  (out_time_base (convert_video_to_h265 e)))
             (received_pts (trace (convert_video_to_h265 e)))
         \<and> sorted (written_pts (trace (convert_video_to_h265 e)))"
proof -
  have ok: "pts_ok (convert_video_to_h265 e)"
  proof (cases e rule: convert_video_to_h265_cases)
    case (converter S)
    have "pts_ok S"
      using converter(5) by (simp add: pts_ok_def received_pts_append written_pts_append)
    then show ?thesis
      using converter(1) by (simp add: frame_converter_pts)
  qed (simp_all add: pts_ok_def init_state_def received_pts_append written_pts_append)
  then have eq: "written_pts (trace (convert_video_to_h265 e)) =
           map (\<lambda>a. av_rescale_q a (enc_time_base (convert_video_to_h265 e))
                  (out_time_base (convert_video_to_h265 e)))
             (received_pts (trace (convert_video_to_h265 e)))"
    by (simp add: pts_ok_def)
  have "sorted (map (\<lambda>a. av_rescale_q a (enc_time_base (convert_video_to_h265 e))
                  (out_time_base (convert_video_to_h265 e)))
             (received_pts (trace (convert_video_to_h265 e))))"
    using assms(5)
    by (rule sorted_wrt_map_mono) (simp add: av_rescale_q_mono assms(1-4))
  with eq show ?thesis
    by simp
qed

theorem rescaled_pts_non_decreasing_witness:
  "0 < num (enc_time_base (convert_video_to_h265 (scenario two_packets)))
   \<and> 0 < den (enc_time_base (convert_video_to_h265 (scenario two_packets)))
   \<and> 0 < num (out_time_base (convert_video_to_h265 (scenario two_packets)))
   \<and> 0 < den (out_time_base (convert_video_to_h265 (scenario two_packets)))
   \<and> sorted (received_pts (trace (convert_video_to_h265 (scenario two_packets))))
   \<and> received_pts (trace (convert_video_to_h265 (scenario two_packets))) = [0, 1]
   \<and> written_pts (trace (convert_video_to_h265 (scenario two_packets))) = [0, 512]
   \<and> sorted (written_pts (trace (convert_video_to_h265 (scenario two_packets))))"
proof -
  have h: "0 < num (enc_time_base (convert_video_to_h265 (scenario two_packets)))"
    "0 < den (enc_time_base (convert_video_to_h265 (scenario two_packets)))"
    "0 < num (out_time_base (convert_video_to_h265 (scenario two_packets)))"
    "0 < den (out_time_base (convert_video_to_h265 (scenario two_packets)))"
    "sorted (received_pts (trace (convert_video_to_h265 (scenario two_packets))))"
    by (simp_all add: scenario_two_packets_run)
  have v: "received_pts (trace (convert_video_to_h265 (scenario two_packets))) = [0, 1]"
    "written_pts (trace (convert_video_to_h265 (scenario two_packets))) = [0, 512]"
    by (simp_all add: scenario_two_packets_run)
  from h v rescaled_pts_non_decreasing [OF h, THEN conjunct2] show ?thesis
    by (intro conjI)
qed


section \<open>Properties of Teardown\<close>

text \<open>
  C2, amended. Teardown is executed once in a call. On every execution that does not
  fault, whichever acquisition step failed, each resource is acquired at most once and
  released exactly as often as it was acquired, by the release calls of the early return
  or by Teardown; the releases of Teardown on a resource that was not acquired do nothing.
  An execution does not fault when \<^verbatim>\<open>frame_converted\<close> is allocated and either the
  loop is not reached (\<^verbatim>\<open>sws_getContext\<close> or \<^verbatim>\<open>av_image_alloc\<close> fails) or
  \<^verbatim>\<open>frame_decoded\<close>, \<^verbatim>\<open>packet_in\<close> and \<^verbatim>\<open>packet_out\<close> are allocated as well.
\<close>

theorem teardown_releases_what_was_acquired:
  "(\<not> faulted (convert_video_to_h265 e) \<longrightarrow>
      count_list (trace (convert_video_to_h265 e)) (Acquire r) \<le> 1
      \<and> count_list (trace (convert_video_to_h265 e)) (Release r) =
          count_list (trace (convert_video_to_h265 e)) (Acquire r))
   \<and> (frame_converted_allocated (converter e)
      \<and> (\<not> sws_allocated (converter e) \<or> image_alloc_ret (converter e) < 0
         \<or> frame_decoded_allocated (converter e) \<and> packet_in_allocated (converter e)
           \<and> packet_out_allocated (converter e))
      \<longrightarrow> \<not> faulted (convert_video_to_h265 e))"
proof (cases e rule: convert_video_to_h265_cases)
  case open_failed
  then show ?thesis by (simp add: init_state_def)
next
  case source_failed
  then show ?thesis by (cases r) simp_all
next
  case decoder_failed
  then show ?thesis by (cases r) simp_all
next
  case encoder_missing
  then show ?thesis by (cases r) simp_all
next
  case encoder_open_failed
  then show ?thesis by (cases r) simp_all
next
  case params_failed
  then show ?thesis by (cases r) simp_all
next
  case avio_failed
  then show ?thesis by (cases r) simp_all
next
  case header_failed
  then show ?thesis by (cases r) simp_all
next
  case (converter S)
  have led: "ledger S"
    unfolding ledger_def
  proof
    fix x show "account x S"
      by (cases x) (simp_all add: account_def converter(5,7))
  qed
  have clo: "closable e S"
    by (simp add: closable_def converter(7))
  have "ledger (frame_converter e S)"
    using led by (rule frame_converter_ledger) (simp_all add: converter(5))
  then have acc: "account r (convert_video_to_h265 e)"
    by (simp add: ledger_def converter(1))
  have dd: "dead r (convert_video_to_h265 e)"
    unfolding converter(1) using clo by (rule frame_converter_dead)
  have nd: "handles S x \<noteq> Dangling" for x
    by (simp add: converter(7))
  have nf: "\<not> faulted (convert_video_to_h265 e)"
    if "frame_converted_allocated (converter e)"
      and "\<not> sws_allocated (converter e) \<or> image_alloc_ret (converter e) < 0
         \<or> frame_decoded_allocated (converter e) \<and> packet_in_allocated (converter e)
           \<and> packet_out_allocated (converter e)"
    unfolding converter(1) using converter(6) nd that by (rule frame_converter_no_fault)
  show ?thesis
    using account_balanced [OF acc dd] nf by argo
qed

theorem teardown_releases_what_was_acquired_witness:
  "frame_converted_allocated (converter null_handles)
   \<and> \<not> sws_allocated (converter null_handles)
   \<and> \<not> faulted (convert_video_to_h265 null_handles)
   \<and> count_list (trace (convert_video_to_h265 null_handles)) (Release Frame_converted) = 1
   \<and> count_list (trace (convert_video_to_h265 null_handles)) (Release Frame_decoded) = 0"
proof -
  have h: "frame_converted_allocated (converter null_handles)"
    "\<not> sws_allocated (converter null_handles)"
    by (simp_all add: null_handles_def)
  note inst = teardown_releases_what_was_acquired [of null_handles]
  have nf: "\<not> faulted (convert_video_to_h265 null_handles)"
    by (rule inst [THEN conjunct2, THEN mp]) (simp add: h)
  have acq: "count_list (trace (convert_video_to_h265 null_handles)) (Acquire Frame_converted) = 1"
    "count_list (trace (convert_video_to_h265 null_handles)) (Acquire Frame_decoded) = 0"
    by (simp_all add: null_handles_trace)
  have a: "count_list (trace (convert_video_to_h265 null_handles)) (Release Frame_converted) = 1"
    using inst [of Frame_converted, THEN conjunct1, THEN mp, OF nf, THEN conjunct2]
    by (simp only: acq)
  have b: "count_list (trace (convert_video_to_h265 null_handles)) (Release Frame_decoded) = 0"
    using inst [of Frame_decoded, THEN conjunct1, THEN mp, OF nf, THEN conjunct2]
    by (simp only: acq)
  from h nf a b show ?thesis
    by (intro conjI)
qed

text \<open>
  The claim as stated fails for a second execution of Teardown: \<^verbatim>\<open>sws_freeContext\<close>
  and \<^verbatim>\<open>avformat_free_context\<close> receive their pointer by value, so the variables keep
  the freed addresses, and after a failed \<^verbatim>\<open>av_image_alloc\<close> a second execution frees
  the scaler again.
\<close>

theorem second_teardown_frees_again:
  "\<not> faulted (convert_video_to_h265 image_alloc_failure)
   \<and> handles (convert_video_to_h265 image_alloc_failure) Sws_ctx = Dangling
   \<and> faulted (cleanup image_alloc_failure (convert_video_to_h265 image_alloc_failure))"
  unfolding run_defs
  by (simp add: env_defs state_defs image_alloc_failure_def) (simp add: cleanup_defs state_defs)

section \<open>Where the function departs from its specification\<close>

text \<open>
  C1. A failing \<^verbatim>\<open>avcodec_send_packet\<close> leaves the loop by \<^verbatim>\<open>break\<close>, so control
  reaches \<^verbatim>\<open>av_write_trailer\<close> before Teardown: on this error the trailer is written.
  The other fatal errors of the loop leave by \<^verbatim>\<open>goto cleanup\<close>; a failing
  \<^verbatim>\<open>avcodec_receive_frame\<close> on the same packet writes no trailer.
\<close>

theorem send_packet_failure_writes_trailer:
  "trace (convert_video_to_h265 send_failure) =
     [Acquire In_fmt_ctx, Acquire Dec_ctx, Acquire Out_fmt_ctx, Acquire Enc_ctx,
      Assign Enc_height, Assign Enc_width, Assign Enc_sample_aspect_ratio,
      Assign Enc_pix_fmt, Assign Enc_time_base, Open_encoder 0,
      Params_from_context 0, Assign Out_time_base, Acquire Out_pb,
      Write_header 0, Acquire Frame_decoded, Acquire Frame_converted,
      Acquire Packet_in, Acquire Packet_out, Acquire Sws_ctx, Acquire Image_buf,
      Assign Fc_width, Assign Fc_height, Assign Fc_format, Assign Fc_pts,
      Read_frame 0, Send_packet (- 1094995529), Write_trailer, Release Sws_ctx,
      Release Image_buf, Release Frame_converted, Release Frame_decoded,
      Release Packet_in, Release Packet_out, Release Out_pb, Release Enc_ctx,
      Release Dec_ctx, Release In_fmt_ctx, Release Out_fmt_ctx]
   \<and> Write_trailer \<notin> set (trace (convert_video_to_h265 receive_failure))"
  unfolding run_defs
  by (simp add: env_defs state_defs send_failure_def receive_failure_def)
    (simp add: cleanup_defs state_defs)

text \<open>
  C3. The function never flushes the decoder or the encoder: frames the encoder still
  holds when the input ends are not written. With three frames decoded and submitted and
  an encoder that holds them back, the run ends without fault, writes the trailer and has
  written no packet. The drain of the decoder also ends after the first frame of a
  packet, since the drain of the encoder leaves a negative value in the shared
  \<^verbatim>\<open>ret\<close>: of two frames the decoder has for one packet, only one is submitted.
\<close>

theorem buffered_frames_are_never_written:
  "frames_sent (trace (convert_video_to_h265 buffering_encoder)) = 3
   \<and> packets_written (trace (convert_video_to_h265 buffering_encoder)) = 0
   \<and> Write_trailer \<in> set (trace (convert_video_to_h265 buffering_encoder))
   \<and> \<not> faulted (convert_video_to_h265 buffering_encoder)
   \<and> frames_sent (trace (convert_video_to_h265 two_frames_in_packet)) = 1
   \<and> packets_written (trace (convert_video_to_h265 two_frames_in_packet)) = 1"
  unfolding run_defs
  by (simp add: env_defs state_defs buffering_encoder_def two_frames_in_packet_def)
    (simp add: cleanup_defs state_defs)

end
